theory Spec2Isabelle
  imports Main
begin

section \<open>Schema mappings and the schema service (src/shared/schemas.ts)\<close>

text \<open>
  A \<^verbatim>\<open>vscode.Uri\<close> is an immutable object. The service keys its ownership table by the
  object (\<^verbatim>\<open>Map<vscode.Uri, SchemaMapping>\<close>) and compares schemas with \<^verbatim>\<open>!==\<close>, so two
  objects holding the same strings are different keys. A value of \<open>vscode_uri\<close> stands
  for one such object: \<open>ident\<close> is its identity, the other fields are the strings the code
  reads off it (\<^verbatim>\<open>uri.fsPath\<close>, \<^verbatim>\<open>uri.toString()\<close>).
\<close>

record vscode_uri =
  ident :: nat
  fsPath :: string
  toString :: string

text \<open>\<^verbatim>\<open>export type SchemaType = 'yaml' | 'json'\<close>\<close>

datatype schema_type = Yaml | Json

text \<open>The field \<^verbatim>\<open>schema?: string | vscode.Uri\<close> of a mapping.\<close>

datatype schema_ref = SchemaName string | SchemaUri vscode_uri

text \<open>
  \<^verbatim>\<open>interface SchemaMapping { uri; type; owner?: string; schema?: string | vscode.Uri }\<close>.
  An optional field that is \<^verbatim>\<open>undefined\<close> is \<open>None\<close>.
\<close>

record schema_mapping =
  uri :: vscode_uri
  type :: schema_type
  owner :: "string option"
  schema :: "schema_ref option"

text \<open>\<^verbatim>\<open>export type Schemas = { [key: string]: vscode.Uri }\<close>\<close>

type_synonym schemas = "string \<rightharpoonup> vscode_uri"

text \<open>
  Exceptions are values. \<open>NoRegisteredHandler\<close> is the \<^verbatim>\<open>Error\<close> thrown by
  \<^verbatim>\<open>processUpdates\<close>, \<open>FailedToResolveSchema\<close> the one thrown by
  \<^verbatim>\<open>updateSchemaFromRemote\<close>; \<open>ExternalError\<close> is whatever a collaborator outside
  this file throws (a handler, the JSON parser, the file system, the network).
\<close>

datatype error =
    NoRegisteredHandler schema_type
  | FailedToResolveSchema string
  | ExternalError string

text \<open>
  \<^verbatim>\<open>SchemaHandler.handleUpdate(mapping, schemas): Promise<void>\<close>, acting on the backing
  stores \<open>'w\<close> of the handlers. The promise is fulfilled (\<open>None\<close>) or rejected
  (\<open>Some e\<close>); either way the stores are left as the call made them.
\<close>

type_synonym 'w handler = "schema_mapping \<Rightarrow> schemas \<Rightarrow> 'w \<Rightarrow> error option \<times> 'w"

text \<open>
  The fields of \<^verbatim>\<open>class SchemaService\<close>. \<open>timer\<close> is \<open>None\<close> before \<^verbatim>\<open>startTimer\<close>,
  \<open>Some True\<close> while a firing of the timeout is pending and \<open>Some False\<close> once it has
  fired and has not been refreshed. \<open>backing\<close> holds the handlers' stores, and
  \<open>debugLog\<close> the mappings of the lines
  \<^verbatim>\<open>getLogger().debug('schema service: handle %s mapping: %s -> %s', ...)\<close>, one per
  dispatch, in the order they were written.
\<close>

record 'w schema_service =
  updatePeriod :: nat
  timer :: "bool option"
  updateQueue :: "schema_mapping list"
  schemas :: "schemas option"
  handlers :: "schema_type \<rightharpoonup> 'w handler"
  owned :: "vscode_uri \<rightharpoonup> schema_mapping"
  backing :: 'w
  debugLog :: "schema_mapping list"

definition DEFAULT_UPDATE_PERIOD_MILLIS :: nat where
  "DEFAULT_UPDATE_PERIOD_MILLIS = 1000"

text \<open>
  The constructor. The handler table is given (\<^verbatim>\<open>opts.handlers\<close>); \<open>w\<close> is the initial
  state of the handlers' stores.
\<close>

definition SchemaService ::
  "schemas option \<Rightarrow> nat option \<Rightarrow> (schema_type \<rightharpoonup> 'w handler) \<Rightarrow> 'w \<Rightarrow> 'w schema_service" where
  "SchemaService optSchemas optPeriod optHandlers w =
     \<lparr> updatePeriod = (case optPeriod of None \<Rightarrow> DEFAULT_UPDATE_PERIOD_MILLIS | Some p \<Rightarrow> p),
       timer = None,
       updateQueue = [],
       schemas = optSchemas,
       handlers = optHandlers,
       owned = Map.empty,
       backing = w,
       debugLog = [] \<rparr>"

subsection \<open>registerMapping\<close>

text \<open>
  \<^verbatim>\<open>!this.owned.has(mapping.uri) && mapping.owner !== undefined && mapping.schema !== undefined\<close>
\<close>

definition isOwnerUndefined :: "'w schema_service \<Rightarrow> schema_mapping \<Rightarrow> bool" where
  "isOwnerUndefined s mapping \<longleftrightarrow>
     owned s (uri mapping) = None \<and> owner mapping \<noteq> None \<and> schema mapping \<noteq> None"

text \<open>
  \<^verbatim>\<open>this.owned.has(mapping.uri) && mapping.owner !== undefined &&
  this.owned.get(mapping.uri)?.schema !== mapping.schema\<close>
\<close>

definition isSchemaChanged :: "'w schema_service \<Rightarrow> schema_mapping \<Rightarrow> bool" where
  "isSchemaChanged s mapping \<longleftrightarrow>
     (case owned s (uri mapping) of
        None \<Rightarrow> False
      | Some rec \<Rightarrow> owner mapping \<noteq> None \<and> schema rec \<noteq> schema mapping)"

text \<open>\<^verbatim>\<open>this.owned.get(u)?.owner\<close>\<close>

definition ownerOf :: "'w schema_service \<Rightarrow> vscode_uri \<Rightarrow> string option" where
  "ownerOf s u = (case owned s u of None \<Rightarrow> None | Some rec \<Rightarrow> owner rec)"

text \<open>Lines 108 to 119: the claim or reclaim of the URI.\<close>

definition claimOwnership :: "schema_mapping \<Rightarrow> 'w schema_service \<Rightarrow> 'w schema_service" where
  "claimOwnership mapping s =
     (if isOwnerUndefined s mapping \<or> isSchemaChanged s mapping
      then s\<lparr>owned := (owned s)(uri mapping \<mapsto> mapping)\<rparr>
      else s)"

text \<open>\<^verbatim>\<open>this.updateQueue.push(mapping)\<close>\<close>

definition pushUpdate :: "schema_mapping \<Rightarrow> 'w schema_service \<Rightarrow> 'w schema_service" where
  "pushUpdate mapping s = s\<lparr>updateQueue := updateQueue s @ [mapping]\<rparr>"

text \<open>
  \<^verbatim>\<open>registerMapping(mapping)\<close> with \<^verbatim>\<open>flush\<close> absent or false: the whole method but
  the call of \<^verbatim>\<open>processUpdates\<close>.
\<close>

definition registerQueued :: "schema_mapping \<Rightarrow> 'w schema_service \<Rightarrow> 'w schema_service" where
  "registerQueued mapping s =
     (let s1 = claimOwnership mapping s in
      if owner mapping = ownerOf s1 (uri mapping) then pushUpdate mapping s1 else s1)"

definition registerAll :: "schema_mapping list \<Rightarrow> 'w schema_service \<Rightarrow> 'w schema_service" where
  "registerAll ms s = foldl (\<lambda>s' m. registerQueued m s') s ms"

subsection \<open>processUpdates\<close>

text \<open>
  The method is \<^verbatim>\<open>async\<close>: it gives up control at each
  \<^verbatim>\<open>await handler.handleUpdate(...)\<close>, and other code of the one thread runs there.
  What that code can do to the service is one of three things. A caller registers a
  mapping (\<open>Register\<close>; with \<^verbatim>\<open>flush\<close> the registration is followed by the start of
  another drain). Another call of \<^verbatim>\<open>processUpdates\<close>, started by a flush or by the
  timer, splices the queue into a batch of its own (\<open>Splice\<close>; its guard passes or the
  queue is empty already, since the table is set while a drain runs). Another drain in
  flight runs one pass of its loop for a mapping of its batch (\<open>Handle\<close>): it throws if
  the type has no handler, and otherwise writes its debug line and calls the handler.
  Whatever the other code does is a list of these actions; the lists are not restricted
  further, so a statement about all lists covers every interleaving.
\<close>

datatype action = Register schema_mapping | Splice | Handle schema_mapping

text \<open>
  One pass of the loop of \<^verbatim>\<open>processUpdates\<close> as it changes the service: nothing when the
  type has no handler (the pass throws), else the debug line and the call of the handler.
\<close>

definition handleOne :: "schemas \<Rightarrow> schema_mapping \<Rightarrow> 'w schema_service \<Rightarrow> 'w schema_service" where
  "handleOne t mapping s =
     (case handlers s (type mapping) of
        None \<Rightarrow> s
      | Some handler \<Rightarrow>
          (let s1 = s\<lparr>debugLog := debugLog s @ [mapping]\<rparr>
           in s1\<lparr>backing := snd (handler mapping t (backing s1))\<rparr>))"

fun act :: "schemas \<Rightarrow> action \<Rightarrow> 'w schema_service \<Rightarrow> 'w schema_service" where
  "act t (Register mapping) s = registerQueued mapping s"
| "act t Splice s = s\<lparr>updateQueue := []\<rparr>"
| "act t (Handle mapping) s = handleOne t mapping s"

definition meanwhile :: "schemas \<Rightarrow> action list \<Rightarrow> 'w schema_service \<Rightarrow> 'w schema_service" where
  "meanwhile t actions s = foldl (\<lambda>s' a. act t a s') s actions"

text \<open>
  The \<^verbatim>\<open>for\<close> loop of \<^verbatim>\<open>processUpdates\<close> over the batch. \<open>arrivals\<close> lists, for each
  handler call of this drain in turn, what the other code did while that call was
  awaited; the plain run-to-completion drain is the one with no arrivals. The table \<open>t\<close>
  is \<^verbatim>\<open>this.schemas\<close>, which nothing unsets once it is set. A missing handler throws
  before the debug line is written; a handler that rejects ends the loop at its
  \<^verbatim>\<open>await\<close>.
\<close>

fun dispatch ::
  "action list list \<Rightarrow> schemas \<Rightarrow> schema_mapping list \<Rightarrow> 'w schema_service
     \<Rightarrow> error option \<times> 'w schema_service" where
  "dispatch arrivals t [] s = (None, s)"
| "dispatch arrivals t (mapping # batch) s =
     (case handlers s (type mapping) of
        None \<Rightarrow> (Some (NoRegisteredHandler (type mapping)), s)
      | Some handler \<Rightarrow>
          (let s1 = s\<lparr>debugLog := debugLog s @ [mapping]\<rparr>;
               (failure, w) = handler mapping t (backing s1);
               s2 = meanwhile t (case arrivals of [] \<Rightarrow> [] | actions # _ \<Rightarrow> actions)
                      (s1\<lparr>backing := w\<rparr>)
           in case failure of
                Some e \<Rightarrow> (Some e, s2)
              | None \<Rightarrow> dispatch (tl arrivals) t batch s2))"

text \<open>
  \<^verbatim>\<open>processUpdates\<close>, with what happens during its awaits. The guard returns before the
  queue is touched; otherwise \<^verbatim>\<open>splice(0, length)\<close> empties the queue into the batch.
\<close>

definition processUpdatesDuring ::
  "action list list \<Rightarrow> 'w schema_service \<Rightarrow> error option \<times> 'w schema_service" where
  "processUpdatesDuring arrivals s =
     (if updateQueue s = [] \<or> schemas s = None then (None, s)
      else dispatch arrivals (the (schemas s)) (updateQueue s) (s\<lparr>updateQueue := []\<rparr>))"

definition processUpdates :: "'w schema_service \<Rightarrow> error option \<times> 'w schema_service" where
  "processUpdates s = processUpdatesDuring [] s"

text \<open>
  \<^verbatim>\<open>registerMapping(mapping, flush)\<close>. With \<^verbatim>\<open>flush === true\<close> the drain is started and
  its promise dropped, so a rejection never reaches the caller; the drain is run to its
  end here.
\<close>

definition registerMapping :: "schema_mapping \<Rightarrow> bool \<Rightarrow> 'w schema_service \<Rightarrow> 'w schema_service" where
  "registerMapping mapping flush s =
     (let s1 = claimOwnership mapping s in
      if owner mapping = ownerOf s1 (uri mapping)
      then (let s2 = pushUpdate mapping s1 in if flush then snd (processUpdates s2) else s2)
      else s1)"

subsection \<open>The drain timer\<close>

text \<open>
  \<^verbatim>\<open>startTimer\<close> arms a timeout whose callback is
  \<^verbatim>\<open>async () => { await this.processUpdates(); this.timer?.refresh() }\<close>. A timeout fires
  once; \<^verbatim>\<open>refresh()\<close> arms it again. When the awaited drain rejects, the callback ends
  at the \<^verbatim>\<open>await\<close> and \<^verbatim>\<open>refresh\<close> is not reached.
\<close>

definition startTimer :: "'w schema_service \<Rightarrow> 'w schema_service" where
  "startTimer s = s\<lparr>timer := Some True\<rparr>"

definition timerCallback :: "'w schema_service \<Rightarrow> error option \<times> 'w schema_service" where
  "timerCallback s =
     (case processUpdates s of
        (Some e, s') \<Rightarrow> (Some e, s')
      | (None, s') \<Rightarrow> (None, s'\<lparr>timer := map_option (\<lambda>_. True) (timer s')\<rparr>))"

text \<open>One firing of the timeout, if one is pending.\<close>

definition timerFires :: "'w schema_service \<Rightarrow> error option \<times> 'w schema_service" where
  "timerFires s =
     (if timer s = Some True then timerCallback (s\<lparr>timer := Some False\<rparr>) else (None, s))"

section \<open>JsonSchemaHandler (src/shared/schemas.ts)\<close>

text \<open>\<^verbatim>\<open>interface JSONSchemaSettings { fileMatch?: string[]; url?: string; schema?: any }\<close>\<close>

record json_schema_settings =
  fileMatch :: "string list option"
  url :: "string option"
  schema_inline :: "string option"

text \<open>
  The configuration store (\<^verbatim>\<open>Settings\<close>) is not under src/. The handler reads the list
  under \<^verbatim>\<open>'json.schemas'\<close> with \<^verbatim>\<open>config.get\<close> and writes it with \<^verbatim>\<open>config.update\<close>.
  Whether two reads give the same objects is not said anywhere, and is taken as a
  parameter: with \<open>liveObjects\<close> the store hands out the entries it holds, so that a
  change made to an entry through one read shows in every other read; without it each
  read is a copy, and a change made to a copy is lost unless the list that holds it is
  written. Modelled from the spec: \<^verbatim>\<open>config.update\<close> stores the list it is given and does
  not throw. \<open>cleaned\<close> is the state of \<^verbatim>\<open>once(() => this.cleanResourceMappings())\<close>:
  whether the wrapped function has run.
\<close>

record json_handler =
  cleaned :: bool
  liveObjects :: bool
  json_schemas :: "json_schema_settings list"

text \<open>\<^verbatim>\<open>getJsonSettings()\<close>: one read of the list.\<close>

definition getJsonSettings :: "json_handler \<Rightarrow> json_schema_settings list" where
  "getJsonSettings h = json_schemas h"

text \<open>
  Modelled from the spec: \<^verbatim>\<open>normalizeVSCodeUri\<close> is not under src/; the spec calls its
  result the file path of the document.
\<close>

definition normalizeVSCodeUri :: "vscode_uri \<Rightarrow> string" where
  "normalizeVSCodeUri u = fsPath u"

text \<open>\<^verbatim>\<open>function resolveSchema(schema, schemas)\<close>\<close>

fun resolveSchema :: "schema_ref \<Rightarrow> schemas \<Rightarrow> vscode_uri option" where
  "resolveSchema (SchemaUri u) t = Some u"
| "resolveSchema (SchemaName name) t = t name"

text \<open>
  \<^verbatim>\<open>function filterJsonSettings(settings, predicate)\<close>: every entry's \<^verbatim>\<open>fileMatch\<close> is
  filtered, and the entries whose list became empty are dropped.
\<close>

definition filterJsonSettings ::
  "json_schema_settings list \<Rightarrow> (string \<Rightarrow> bool) \<Rightarrow> json_schema_settings list" where
  "filterJsonSettings settings predicate =
     filter (\<lambda>e. case fileMatch e of None \<Rightarrow> True | Some fs \<Rightarrow> fs \<noteq> [])
       (map (\<lambda>e. e\<lparr>fileMatch := map_option (filter predicate) (fileMatch e)\<rparr>) settings)"

text \<open>\<^verbatim>\<open>file.endsWith(suffix)\<close>\<close>

definition endsWith :: "string \<Rightarrow> string \<Rightarrow> bool" where
  "endsWith file suffix \<longleftrightarrow>
     length suffix \<le> length file \<and> drop (length file - length suffix) file = suffix"

definition cleanResourceMappings :: "json_handler \<Rightarrow> json_handler" where
  "cleanResourceMappings h =
     h\<lparr>json_schemas :=
         filterJsonSettings (getJsonSettings h) (\<lambda>file. \<not> endsWith file ''.awsResource.json'')\<rparr>"

text \<open>\<^verbatim>\<open>this.clean()\<close>: the cleanup runs on the first call only.\<close>

definition clean :: "json_handler \<Rightarrow> json_handler" where
  "clean h = (if cleaned h then h else (cleanResourceMappings h)\<lparr>cleaned := True\<rparr>)"

text \<open>A string or \<^verbatim>\<open>undefined\<close> in a condition: \<^verbatim>\<open>undefined\<close> and \<^verbatim>\<open>''\<close> are falsy.\<close>

definition truthy :: "string option \<Rightarrow> bool" where
  "truthy x \<longleftrightarrow> (case x of None \<Rightarrow> False | Some str \<Rightarrow> str \<noteq> [])"

text \<open>
  The callback of \<^verbatim>\<open>settings.find\<close> in \<^verbatim>\<open>getSettingBy\<close>, after \<open>path\<close> and \<open>schm\<close> have
  been read off the arguments. \<open>pathNormalize\<close> is \<^verbatim>\<open>pathutil.normalize\<close>, which is not
  under src/ and is taken as a parameter.
\<close>

definition settingMatches ::
  "(string \<Rightarrow> string) \<Rightarrow> string option \<Rightarrow> string option \<Rightarrow> json_schema_settings \<Rightarrow> bool" where
  "settingMatches pathNormalize path schm e \<longleftrightarrow>
     (let schmMatch =
            (case (schm, url e) of
               (Some sp, Some u) \<Rightarrow> sp \<noteq> [] \<and> u \<noteq> [] \<and> pathNormalize u = pathNormalize sp
             | _ \<Rightarrow> False);
          fileMatches =
            (case (path, fileMatch e) of
               (Some p, Some fs) \<Rightarrow> p \<noteq> [] \<and> p \<in> set fs
             | _ \<Rightarrow> False)
      in (\<not> truthy path \<or> fileMatches) \<and> (\<not> truthy schm \<or> schmMatch))"

text \<open>\<^verbatim>\<open>getSettingBy\<close> reads the list itself and returns the first entry the callback accepts.\<close>

definition getSettingBy ::
  "(string \<Rightarrow> string) \<Rightarrow> string option \<Rightarrow> string option \<Rightarrow> json_handler
     \<Rightarrow> json_schema_settings option" where
  "getSettingBy pathNormalize file schemaPath h =
     find (settingMatches pathNormalize file schemaPath) (getJsonSettings h)"

text \<open>\<^verbatim>\<open>isMapped(file)\<close>, for a file given by its path.\<close>

definition isMapped :: "(string \<Rightarrow> string) \<Rightarrow> string \<Rightarrow> json_handler \<Rightarrow> bool" where
  "isMapped pathNormalize file h \<longleftrightarrow>
     getSettingBy pathNormalize (Some file) None h \<noteq> None"

text \<open>
  \<^verbatim>\<open>existing.fileMatch.push(path)\<close> as it shows in a list that holds the object
  \<^verbatim>\<open>existing\<close>: the first entry that the \<^verbatim>\<open>find\<close> callback accepts is changed where it
  stands.
\<close>

fun pushFileMatch ::
  "(json_schema_settings \<Rightarrow> bool) \<Rightarrow> string \<Rightarrow> json_schema_settings list
     \<Rightarrow> json_schema_settings list" where
  "pushFileMatch isExisting path [] = []"
| "pushFileMatch isExisting path (e # es) =
     (if isExisting e
      then e\<lparr>fileMatch := map_option (\<lambda>fs. fs @ [path]) (fileMatch e)\<rparr> # es
      else e # pushFileMatch isExisting path es)"

text \<open>
  \<^verbatim>\<open>JsonSchemaHandler.handleUpdate\<close>. \<^verbatim>\<open>if (mapping.schema)\<close> is false for an absent
  schema and for the empty string. An unresolvable schema returns after the cleanup and
  before any write of its own. The list is read twice: \<open>settings\<close> is the read of
  \<^verbatim>\<open>let settings = this.getJsonSettings()\<close>, and \<^verbatim>\<open>existing\<close> comes from the read
  inside \<^verbatim>\<open>getSettingBy\<close>. The push goes to the entry of the second read, and
  \<^verbatim>\<open>config.update('json.schemas', settings)\<close> writes the list of the first: the written
  list holds the pushed path only when the store hands out live objects.
\<close>

definition handleUpdate :: "(string \<Rightarrow> string) \<Rightarrow> json_handler handler" where
  "handleUpdate pathNormalize mapping t h =
     (let h1 = clean h;
          settings = getJsonSettings h1;
          path = normalizeVSCodeUri (uri mapping);
          removal = (None, h1\<lparr>json_schemas := filterJsonSettings settings (\<lambda>file. file \<noteq> path)\<rparr>)
      in case schema mapping of
           None \<Rightarrow> removal
         | Some ref \<Rightarrow>
             if ref = SchemaName [] then removal
             else
               (case resolveSchema ref t of
                  None \<Rightarrow> (None, h1)
                | Some resolved \<Rightarrow>
                    (let schemaUri = toString resolved in
                     case getSettingBy pathNormalize None (Some schemaUri) h1 of
                       Some existing \<Rightarrow>
                         (if fileMatch existing = None then (None, h1\<lparr>json_schemas := settings\<rparr>)
                          else
                            (let pushed =
                                   pushFileMatch (settingMatches pathNormalize None (Some schemaUri))
                                     path settings
                             in (None, h1\<lparr>json_schemas :=
                                          (if liveObjects h1 then pushed else settings)\<rparr>)))
                     | None \<Rightarrow>
                         (None, h1\<lparr>json_schemas :=
                            settings @ [\<lparr>fileMatch = Some [path], url = Some schemaUri,
                                         schema_inline = None\<rparr>]\<rparr>))))"

section \<open>Downloading the default schemas (src/shared/schemas.ts)\<close>

text \<open>
  What the download code changes: the files (by \<^verbatim>\<open>fsPath\<close>), the directories made by
  \<^verbatim>\<open>SystemUtilities.createDirectory\<close>, the version cache
  (\<^verbatim>\<open>extensionContext.globalState\<close>), the URLs asked of the network, in order, and the
  errors reported by \<^verbatim>\<open>getLogger().warn\<close>.
\<close>

record world =
  files :: "string \<rightharpoonup> string"
  directories :: "vscode_uri list"
  globalState :: "string \<rightharpoonup> string"
  requests :: "string list"
  warnings :: "error list"

text \<open>
  The collaborators that are not under src/, as parameters: each may return or throw.
  \<open>httpGet u\<close> is \<^verbatim>\<open>new HttpResourceFetcher(u, ...).get()\<close>; \<open>retitle content title\<close> is
  \<^verbatim>\<open>JSON.stringify({ ...JSON.parse(content), title })\<close>, which throws when the content
  does not parse; \<open>updateGlobalState\<close> tells whether \<^verbatim>\<open>globalState.update\<close> rejects.
\<close>

record env =
  AWS_SCHEME :: string
  httpGet :: "string \<Rightarrow> error + string option"
  getFromUrl :: "string \<Rightarrow> error + string option"
  getPropertyFromJsonUrl :: "string \<Rightarrow> string \<Rightarrow> error + string option"
  retitle :: "string \<Rightarrow> string \<Rightarrow> error + string"
  createDirectory :: "vscode_uri \<Rightarrow> error option"
  writeFile :: "string \<Rightarrow> string \<Rightarrow> error option"
  updateGlobalState :: "string \<Rightarrow> string option \<Rightarrow> error option"
  getStringHash :: "string \<Rightarrow> string"
  joinPath :: "vscode_uri \<Rightarrow> string \<Rightarrow> vscode_uri"

text \<open>
  The argument of \<^verbatim>\<open>updateSchemaFromRemote\<close> (\<^verbatim>\<open>params.url\<close> is \<open>sourceUrl\<close>; the
  extension context is the \<open>world\<close>).
\<close>

record update_params =
  destination :: vscode_uri
  version :: "string option"
  sourceUrl :: string
  cacheKey :: string
  title :: string

text \<open>
  The \<^verbatim>\<open>try\<close> block of \<^verbatim>\<open>updateSchemaFromRemote\<close>: fetch, parse and retitle, make the
  directory, write the file, update the cache key. A rejected cache update is logged and
  is no failure.
\<close>

definition fetchAndStore :: "env \<Rightarrow> update_params \<Rightarrow> world \<Rightarrow> error option \<times> world" where
  "fetchAndStore env params w =
     (let w1 = w\<lparr>requests := requests w @ [sourceUrl params]\<rparr> in
      case httpGet env (sourceUrl params) of
        Inl e \<Rightarrow> (Some e, w1)
      | Inr content \<Rightarrow>
          (case content of
             None \<Rightarrow> (Some (FailedToResolveSchema (toString (destination params))), w1)
           | Some body \<Rightarrow>
               if body = [] then (Some (FailedToResolveSchema (toString (destination params))), w1)
               else
                 (case retitle env body (title params) of
                    Inl e \<Rightarrow> (Some e, w1)
                  | Inr parsedFile \<Rightarrow>
                      (let dir = joinPath env (destination params) ''..'' in
                       case createDirectory env dir of
                         Some e \<Rightarrow> (Some e, w1)
                       | None \<Rightarrow>
                           (let w2 = w1\<lparr>directories := directories w1 @ [dir]\<rparr> in
                            case writeFile env (fsPath (destination params)) parsedFile of
                              Some e \<Rightarrow> (Some e, w2)
                            | None \<Rightarrow>
                                (let w3 = w2\<lparr>files :=
                                       (files w2)(fsPath (destination params) \<mapsto> parsedFile)\<rparr> in
                                 case updateGlobalState env (cacheKey params) (version params) of
                                   Some err \<Rightarrow> (None, w3\<lparr>warnings := warnings w3 @ [err]\<rparr>)
                                 | None \<Rightarrow>
                                     (None, w3\<lparr>globalState :=
                                        (globalState w3)(cacheKey params := version params)\<rparr>)))))))"

text \<open>
  \<^verbatim>\<open>updateSchemaFromRemote\<close>. The cached content is what \<^verbatim>\<open>FileResourceFetcher.get()\<close>
  reads at the destination (nothing when the file is missing).
\<close>

definition updateSchemaFromRemote :: "env \<Rightarrow> update_params \<Rightarrow> world \<Rightarrow> error option \<times> world" where
  "updateSchemaFromRemote env params w =
     (let cachedVersion = globalState w (cacheKey params);
          outdated = (truthy (version params) \<and> version params \<noteq> cachedVersion);
          cachedContent = files w (fsPath (destination params))
      in if \<not> outdated \<and> truthy cachedContent then (None, w)
         else
           (case fetchAndStore env params w of
              (None, w') \<Rightarrow> (None, w')
            | (Some err, w') \<Rightarrow>
                if truthy cachedContent then (None, w'\<lparr>warnings := warnings w' @ [err]\<rparr>)
                else (Some err, w')))"

subsection \<open>getDefaultSchemas\<close>

definition goformationManifestURL :: string where
  "goformationManifestURL = ''https://api.github.com/repos/awslabs/goformation/releases/latest''"

definition schemaPrefix :: "env \<Rightarrow> string" where
  "schemaPrefix env = AWS_SCHEME env @ ''://''"

definition buildspecHostedFilesPath :: string where
  "buildspecHostedFilesPath = ''/CodeBuild/buildspec/buildspec-standalone.schema.json''"

definition buildspecCloudfrontURL :: string where
  "buildspecCloudfrontURL = ''https://d3rrggjwfhwld2.cloudfront.net'' @ buildspecHostedFilesPath"

definition buildspecS3FallbackURL :: string where
  "buildspecS3FallbackURL = ''https://aws-vs-toolkit.s3.amazonaws.com'' @ buildspecHostedFilesPath"

definition cfnSchemaUri :: "env \<Rightarrow> vscode_uri \<Rightarrow> vscode_uri" where
  "cfnSchemaUri env path = joinPath env path ''cloudformation.schema.json''"

definition samSchemaUri :: "env \<Rightarrow> vscode_uri \<Rightarrow> vscode_uri" where
  "samSchemaUri env path = joinPath env path ''sam.schema.json''"

definition buildSpecSchemaUri :: "env \<Rightarrow> vscode_uri \<Rightarrow> vscode_uri" where
  "buildSpecSchemaUri env path = joinPath env path ''buildspec.schema.json''"

text \<open>A value placed in a template string: \<^verbatim>\<open>undefined\<close> prints as its name.\<close>

definition interpolate :: "string option \<Rightarrow> string" where
  "interpolate x = (case x of None \<Rightarrow> ''undefined'' | Some str \<Rightarrow> str)"

text \<open>
  The first two \<^verbatim>\<open>try\<close> blocks of \<^verbatim>\<open>getDefaultSchemas\<close>: the CloudFormation and the
  SAM schema, each entered into the table unless its update throws.
\<close>

definition goformationSchemas ::
  "env \<Rightarrow> vscode_uri \<Rightarrow> string option \<Rightarrow> world \<Rightarrow> schemas \<times> world" where
  "goformationSchemas env globalStorageUri goformationSchemaVersion w =
     (let cfnSchemaLocation = cfnSchemaUri env globalStorageUri;
          samSchemaLocation = samSchemaUri env globalStorageUri;
          (r1, w1) = updateSchemaFromRemote env
             \<lparr>destination = cfnSchemaLocation,
              version = goformationSchemaVersion,
              sourceUrl = ''https://raw.githubusercontent.com/awslabs/goformation/''
                @ interpolate goformationSchemaVersion @ ''/schema/cloudformation.schema.json'',
              cacheKey = ''cfnSchemaVersion'',
              title = schemaPrefix env @ ''cloudformation.schema.json''\<rparr> w;
          t1 = (case r1 of None \<Rightarrow> [''cfn'' \<mapsto> cfnSchemaLocation] | Some e \<Rightarrow> Map.empty);
          (r2, w2) = updateSchemaFromRemote env
             \<lparr>destination = samSchemaLocation,
              version = goformationSchemaVersion,
              sourceUrl = ''https://raw.githubusercontent.com/awslabs/goformation/''
                @ interpolate goformationSchemaVersion @ ''/schema/sam.schema.json'',
              cacheKey = ''samSchemaVersion'',
              title = schemaPrefix env @ ''sam.schema.json''\<rparr> w1;
          t2 = (case r2 of None \<Rightarrow> t1(''sam'' \<mapsto> samSchemaLocation) | Some e \<Rightarrow> t1)
      in (t2, w2))"

text \<open>
  One attempt at the buildspec schema from \<open>source\<close>: the source writes the same
  statements twice, once with the CloudFront URL in the inner \<^verbatim>\<open>try\<close> and once with the
  S3 URL in its \<^verbatim>\<open>catch\<close>. The version is the hash of the contents that \<^verbatim>\<open>getFromUrl\<close>
  returns, if any.
\<close>

definition buildspecAttempt :: "env \<Rightarrow> vscode_uri \<Rightarrow> string \<Rightarrow> world \<Rightarrow> error option \<times> world" where
  "buildspecAttempt env globalStorageUri source w =
     (let w1 = w\<lparr>requests := requests w @ [source]\<rparr> in
      case getFromUrl env source of
        Inl e \<Rightarrow> (Some e, w1)
      | Inr contents \<Rightarrow>
          updateSchemaFromRemote env
            \<lparr>destination = buildSpecSchemaUri env globalStorageUri,
             version = (case contents of
                          None \<Rightarrow> None
                        | Some body \<Rightarrow> if body = [] then None else Some (getStringHash env body)),
             sourceUrl = source,
             cacheKey = ''buildSpecSchemaVersion'',
             title = schemaPrefix env @ ''buildspec.schema.json''\<rparr> w1)"

text \<open>The third \<^verbatim>\<open>try\<close> block: CloudFront first, S3 when that attempt throws.\<close>

definition buildspecSchemas :: "env \<Rightarrow> vscode_uri \<Rightarrow> schemas \<Rightarrow> world \<Rightarrow> schemas \<times> world" where
  "buildspecSchemas env globalStorageUri t w =
     (let buildSpecSchemaLocation = buildSpecSchemaUri env globalStorageUri in
      case buildspecAttempt env globalStorageUri buildspecCloudfrontURL w of
        (None, w1) \<Rightarrow> (t(''buildspec'' \<mapsto> buildSpecSchemaLocation), w1)
      | (Some e, w1) \<Rightarrow>
          (case buildspecAttempt env globalStorageUri buildspecS3FallbackURL w1 of
             (None, w2) \<Rightarrow> (t(''buildspec'' \<mapsto> buildSpecSchemaLocation), w2)
           | (Some e', w2) \<Rightarrow> (t, w2)))"

text \<open>
  \<^verbatim>\<open>getDefaultSchemas(extensionContext)\<close>. The manifest is read outside every \<^verbatim>\<open>try\<close>:
  if that call throws, the function rejects (\<open>Inl\<close>).
\<close>

definition getDefaultSchemas :: "env \<Rightarrow> vscode_uri \<Rightarrow> world \<Rightarrow> (error + schemas) \<times> world" where
  "getDefaultSchemas env globalStorageUri w =
     (let w0 = w\<lparr>requests := requests w @ [goformationManifestURL]\<rparr> in
      case getPropertyFromJsonUrl env goformationManifestURL ''tag_name'' of
        Inl e \<Rightarrow> (Inl e, w0)
      | Inr goformationSchemaVersion \<Rightarrow>
          (let (t2, w2) = goformationSchemas env globalStorageUri goformationSchemaVersion w0;
               (t3, w3) = buildspecSchemas env globalStorageUri t2 w2
           in (Inr t3, w3)))"

section \<open>Concrete inputs\<close>

text \<open>Two documents, a resolved schema location and the table that names it.\<close>

definition doc1 :: vscode_uri where
  "doc1 = \<lparr>ident = 1, fsPath = ''/ws/doc1'', toString = ''file:///ws/doc1''\<rparr>"

definition doc2 :: vscode_uri where
  "doc2 = \<lparr>ident = 2, fsPath = ''/ws/doc2'', toString = ''file:///ws/doc2''\<rparr>"

definition cfnLocation :: vscode_uri where
  "cfnLocation = \<lparr>ident = 3, fsPath = ''/gs/cloudformation.schema.json'',
     toString = ''file:///gs/cloudformation.schema.json''\<rparr>"

definition exampleSchemas :: schemas where
  "exampleSchemas = [''cfn'' \<mapsto> cfnLocation]"

definition mappingA :: schema_mapping where
  "mappingA = \<lparr>uri = doc1, type = Json, owner = Some ''featureA'',
     schema = Some (SchemaName ''cfn'')\<rparr>"

definition mappingB :: schema_mapping where
  "mappingB = \<lparr>uri = doc1, type = Json, owner = Some ''featureB'',
     schema = Some (SchemaName ''sam'')\<rparr>"

definition mappingB' :: schema_mapping where
  "mappingB' = \<lparr>uri = doc1, type = Json, owner = Some ''featureB'',
     schema = Some (SchemaName ''cfn'')\<rparr>"

definition removalA :: schema_mapping where
  "removalA = \<lparr>uri = doc1, type = Json, owner = Some ''featureA'', schema = None\<rparr>"

definition yamlMapping :: schema_mapping where
  "yamlMapping = \<lparr>uri = doc2, type = Yaml, owner = None, schema = Some (SchemaName ''cfn'')\<rparr>"

text \<open>A handler that counts its calls and always fulfils.\<close>

definition countingHandler :: "nat handler" where
  "countingHandler mapping t n = (None, Suc n)"

definition jsonOnly :: "schema_type \<rightharpoonup> nat handler" where
  "jsonOnly = [Json \<mapsto> countingHandler]"

definition bothTypes :: "schema_type \<rightharpoonup> nat handler" where
  "bothTypes = [Json \<mapsto> countingHandler, Yaml \<mapsto> countingHandler]"

definition exampleService :: "nat schema_service" where
  "exampleService = SchemaService (Some exampleSchemas) None bothTypes 0"

definition untabledService :: "nat schema_service" where
  "untabledService = SchemaService None None bothTypes 0"

definition jsonOnlyService :: "nat schema_service" where
  "jsonOnlyService = SchemaService (Some exampleSchemas) None jsonOnly 0"

definition jsonService :: "json_handler schema_service" where
  "jsonService = SchemaService (Some exampleSchemas) None [Json \<mapsto> handleUpdate (\<lambda>p. p)]
     \<lparr>cleaned = False, liveObjects = True, json_schemas = []\<rparr>"

text \<open>
  A network on which only the S3 copy of the buildspec schema can be fetched, a file
  system that accepts every write, and two worlds: a fresh one, and one that holds a
  cached buildspec schema of version \<open>''h''\<close>.
\<close>

definition storageUri :: vscode_uri where
  "storageUri = \<lparr>ident = 4, fsPath = ''/gs'', toString = ''file:///gs''\<rparr>"

definition exampleEnv :: env where
  "exampleEnv =
     \<lparr>AWS_SCHEME = ''aws'',
      httpGet = (\<lambda>u. if u = buildspecS3FallbackURL then Inr (Some ''{}'') else Inr None),
      getFromUrl = (\<lambda>u. if u = buildspecS3FallbackURL then Inr (Some ''{}'') else Inr None),
      getPropertyFromJsonUrl = (\<lambda>u p. Inr (Some ''v1'')),
      retitle = (\<lambda>content t. Inr (content @ t)),
      createDirectory = (\<lambda>d. None),
      writeFile = (\<lambda>p content. None),
      updateGlobalState = (\<lambda>k v. None),
      getStringHash = (\<lambda>content. ''h''),
      joinPath = (\<lambda>u segment. \<lparr>ident = 5, fsPath = fsPath u @ ''/'' @ segment,
                                toString = toString u @ ''/'' @ segment\<rparr>)\<rparr>"

definition buildspecParams :: "string option \<Rightarrow> update_params" where
  "buildspecParams v =
     \<lparr>destination = buildSpecSchemaUri exampleEnv storageUri,
      version = v,
      sourceUrl = buildspecCloudfrontURL,
      cacheKey = ''buildSpecSchemaVersion'',
      title = ''aws://buildspec.schema.json''\<rparr>"

definition freshWorld :: world where
  "freshWorld = \<lparr>files = Map.empty, directories = [], globalState = Map.empty,
     requests = [], warnings = []\<rparr>"

definition cachedWorld :: world where
  "cachedWorld = \<lparr>files = [''/gs/buildspec.schema.json'' \<mapsto> ''{}''], directories = [],
     globalState = [''buildSpecSchemaVersion'' \<mapsto> ''h''], requests = [], warnings = []\<rparr>"


definition copyingService :: "json_handler schema_service" where
  "copyingService = SchemaService (Some exampleSchemas) None [Json \<mapsto> handleUpdate (\<lambda>p. p)]
     \<lparr>cleaned = False, liveObjects = False, json_schemas = []\<rparr>"

definition mappingA2 :: schema_mapping where
  "mappingA2 = \<lparr>uri = doc2, type = Json, owner = Some ''featureA'',
     schema = Some (SchemaName ''cfn'')\<rparr>"

definition offlineEnv :: env where
  "offlineEnv = exampleEnv\<lparr>httpGet := (\<lambda>u. Inr None),
     getFromUrl := (\<lambda>u. Inl (ExternalError ''offline''))\<rparr>"

section \<open>Predicates used in the statements\<close>

text \<open>
  What the claim about the ownership table asks of a state: every entry has an owner, and
  is filed under its own URI.
\<close>

definition ownedInv :: "'w schema_service \<Rightarrow> bool" where
  "ownedInv s \<longleftrightarrow> (\<forall>u rec. owned s u = Some rec \<longrightarrow> owner rec \<noteq> None \<and> uri rec = u)"

text \<open>
  The batch items served one after the other, as the spec words the drain: for each item
  in turn the handler registered for its type is invoked, and what the other code does
  during the await of that call comes after it.
\<close>

fun served ::
  "action list list \<Rightarrow> schemas \<Rightarrow> schema_mapping list \<Rightarrow> 'w schema_service \<Rightarrow> 'w schema_service" where
  "served arrivals t [] s = s"
| "served arrivals t (mapping # batch) s =
     served (tl arrivals) t batch
       (meanwhile t (case arrivals of [] \<Rightarrow> [] | actions # _ \<Rightarrow> actions) (handleOne t mapping s))"

fun isHandle :: "action \<Rightarrow> bool" where
  "isHandle (Handle mapping) = True"
| "isHandle a = False"

text \<open>
  The fetch, or the parse, the directory or the write after it, fails: the network call
  throws or yields no content (\<^verbatim>\<open>undefined\<close> or the empty string), the content does not
  parse, or the directory or the file cannot be written.
\<close>

definition fetchFails :: "env \<Rightarrow> update_params \<Rightarrow> bool" where
  "fetchFails env params \<longleftrightarrow>
     (case httpGet env (sourceUrl params) of
        Inl e \<Rightarrow> True
      | Inr None \<Rightarrow> True
      | Inr (Some body) \<Rightarrow>
          body = [] \<or>
          (case retitle env body (title params) of
             Inl e \<Rightarrow> True
           | Inr parsedFile \<Rightarrow>
               createDirectory env (joinPath env (destination params) ''..'') \<noteq> None \<or>
               writeFile env (fsPath (destination params)) parsedFile \<noteq> None))"

section \<open>Lemmas about the schema service\<close>



lemma ownerOf_cong:
  "owned s' = owned s \<Longrightarrow> ownerOf s' u = ownerOf s u"
  by (simp add: ownerOf_def)



lemma claimOwnership_frame:
  "handlers (claimOwnership m s) = handlers s"
  "schemas (claimOwnership m s) = schemas s"
  "backing (claimOwnership m s) = backing s"
  "debugLog (claimOwnership m s) = debugLog s"
  "timer (claimOwnership m s) = timer s"
  "updateQueue (claimOwnership m s) = updateQueue s"
  by (simp_all add: claimOwnership_def)

lemma registerQueued_frame:
  "handlers (registerQueued m s) = handlers s"
  "schemas (registerQueued m s) = schemas s"
  "backing (registerQueued m s) = backing s"
  "debugLog (registerQueued m s) = debugLog s"
  "timer (registerQueued m s) = timer s"
  by (simp_all add: registerQueued_def pushUpdate_def Let_def claimOwnership_frame)

text \<open>
  What a registration does to the queue and to the ownership table depends on these two
  alone.
\<close>

lemma registerQueued_queue_owned:
  assumes "updateQueue s' = updateQueue s" and "owned s' = owned s"
  shows "updateQueue (registerQueued m s') = updateQueue (registerQueued m s)"
    and "owned (registerQueued m s') = owned (registerQueued m s)"
proof -
  have c: "isOwnerUndefined s' m = isOwnerUndefined s m" "isSchemaChanged s' m = isSchemaChanged s m"
    using assms(2) by (simp_all add: isOwnerUndefined_def isSchemaChanged_def)
  have o: "owned (claimOwnership m s') = owned (claimOwnership m s)"
    "updateQueue (claimOwnership m s') = updateQueue (claimOwnership m s)"
    using assms c by (simp_all add: claimOwnership_def)
  have w: "ownerOf (claimOwnership m s') (uri m) = ownerOf (claimOwnership m s) (uri m)"
    using o(1) by (simp add: ownerOf_def)
  show "updateQueue (registerQueued m s') = updateQueue (registerQueued m s)"
    by (simp add: registerQueued_def Let_def pushUpdate_def o w)
  show "owned (registerQueued m s') = owned (registerQueued m s)"
    by (simp add: registerQueued_def Let_def pushUpdate_def o w)
qed

lemma handleOne_frame:
  "handlers (handleOne t m s) = handlers s"
  "schemas (handleOne t m s) = schemas s"
  "timer (handleOne t m s) = timer s"
  "updateQueue (handleOne t m s) = updateQueue s"
  "owned (handleOne t m s) = owned s"
  by (simp_all add: handleOne_def Let_def split: option.splits)

lemma handleOne_debugLog:
  "handlers s (type m) \<noteq> None \<Longrightarrow> debugLog (handleOne t m s) = debugLog s @ [m]"
  by (auto simp: handleOne_def Let_def)

lemma act_frame:
  "handlers (act t a s) = handlers s"
  "schemas (act t a s) = schemas s"
  "timer (act t a s) = timer s"
  by (cases a; simp add: registerQueued_frame handleOne_frame)+

lemma act_debugLog: "\<not> isHandle a \<Longrightarrow> debugLog (act t a s) = debugLog s"
  by (cases a) (simp_all add: registerQueued_frame)

lemma act_backing: "\<not> isHandle a \<Longrightarrow> backing (act t a s) = backing s"
  by (cases a) (simp_all add: registerQueued_frame)

lemma handleOne_backing:
  "backing (handleOne t m s) =
     (case handlers s (type m) of None \<Rightarrow> backing s | Some h \<Rightarrow> snd (h m t (backing s)))"
  by (simp add: handleOne_def Let_def split: option.splits)

lemma act_queue_owned:
  assumes "updateQueue s' = updateQueue s" and "owned s' = owned s"
  shows "updateQueue (act t a s') = updateQueue (act t a s) \<and> owned (act t a s') = owned (act t a s)"
  using assms registerQueued_queue_owned[OF assms]
  by (cases a) (simp_all add: handleOne_frame)

lemma meanwhile_Nil: "meanwhile t [] s = s"
  by (simp add: meanwhile_def)

lemma meanwhile_Cons: "meanwhile t (a # actions) s = meanwhile t actions (act t a s)"
  by (simp add: meanwhile_def)

lemma meanwhile_append:
  "meanwhile t (actions @ actions') s = meanwhile t actions' (meanwhile t actions s)"
  by (simp add: meanwhile_def)

lemma meanwhile_frame:
  "handlers (meanwhile t actions s) = handlers s"
  "schemas (meanwhile t actions s) = schemas s"
  "timer (meanwhile t actions s) = timer s"
  by (induction actions arbitrary: s; simp add: meanwhile_Nil meanwhile_Cons act_frame)+

lemma meanwhile_debugLog:
  "\<forall>a\<in>set actions. \<not> isHandle a \<Longrightarrow> debugLog (meanwhile t actions s) = debugLog s"
  by (induction actions arbitrary: s) (simp_all add: meanwhile_Nil meanwhile_Cons act_debugLog)

lemma meanwhile_backing:
  "\<forall>a\<in>set actions. \<not> isHandle a \<Longrightarrow> backing (meanwhile t actions s) = backing s"
  by (induction actions arbitrary: s) (simp_all add: meanwhile_Nil meanwhile_Cons act_backing)

lemma meanwhile_queue_owned:
  "updateQueue s' = updateQueue s \<Longrightarrow> owned s' = owned s \<Longrightarrow>
     updateQueue (meanwhile t actions s') = updateQueue (meanwhile t actions s) \<and>
     owned (meanwhile t actions s') = owned (meanwhile t actions s)"
proof (induction actions arbitrary: s s')
  case Nil
  then show ?case by (simp add: meanwhile_Nil)
next
  case (Cons a actions)
  from act_queue_owned[OF Cons.prems, of t a]
  have "updateQueue (act t a s') = updateQueue (act t a s)" "owned (act t a s') = owned (act t a s)"
    by simp_all
  from Cons.IH[OF this] show ?case
    by (simp add: meanwhile_Cons)
qed

lemma served_frame: "handlers (served arrivals t batch s) = handlers s"
  by (induction batch arbitrary: arrivals s) (simp_all add: meanwhile_frame handleOne_frame)

lemma served_alone: "served [] t batch s = foldl (\<lambda>s' m. handleOne t m s') s batch"
  by (induction batch arbitrary: s) (simp_all add: meanwhile_Nil)

lemma concat_take_Suc:
  "concat (take (Suc n) arrivals) =
     (case arrivals of [] \<Rightarrow> [] | actions # _ \<Rightarrow> actions) @ concat (take n (tl arrivals))"
  by (cases arrivals) simp_all

text \<open>
  The queue and the ownership table after the batch has been served are those that the
  arrivals alone leave.
\<close>

lemma served_queue_owned:
  "updateQueue (served arrivals t batch s) =
     updateQueue (meanwhile t (concat (take (length batch) arrivals)) s) \<and>
   owned (served arrivals t batch s) =
     owned (meanwhile t (concat (take (length batch) arrivals)) s)"
proof (induction batch arbitrary: arrivals s)
  case Nil
  then show ?case by (simp add: meanwhile_Nil)
next
  case (Cons m batch)
  define now where "now = (case arrivals of [] \<Rightarrow> [] | actions # _ \<Rightarrow> actions)"
  define rest where "rest = concat (take (length batch) (tl arrivals))"
  have "updateQueue (meanwhile t now (handleOne t m s)) = updateQueue (meanwhile t now s) \<and>
        owned (meanwhile t now (handleOne t m s)) = owned (meanwhile t now s)"
    by (intro meanwhile_queue_owned) (simp_all add: handleOne_frame)
  then have "updateQueue (meanwhile t rest (meanwhile t now (handleOne t m s))) =
               updateQueue (meanwhile t rest (meanwhile t now s)) \<and>
             owned (meanwhile t rest (meanwhile t now (handleOne t m s))) =
               owned (meanwhile t rest (meanwhile t now s))"
    by (intro meanwhile_queue_owned) simp_all
  with Cons.IH[of "tl arrivals" "meanwhile t now (handleOne t m s)"] show ?case
    by (simp add: concat_take_Suc meanwhile_append now_def[symmetric] rest_def[symmetric])
qed

lemma served_debugLog:
  "\<forall>actions\<in>set arrivals. \<forall>a\<in>set actions. \<not> isHandle a \<Longrightarrow>
   \<forall>m\<in>set batch. handlers s (type m) \<noteq> None \<Longrightarrow>
   debugLog (served arrivals t batch s) = debugLog s @ batch"
proof (induction batch arbitrary: arrivals s)
  case Nil
  then show ?case by simp
next
  case (Cons m batch)
  define now where "now = (case arrivals of [] \<Rightarrow> [] | actions # _ \<Rightarrow> actions)"
  define s2 where "s2 = meanwhile t now (handleOne t m s)"
  have quiet: "\<forall>a\<in>set now. \<not> isHandle a"
    using Cons.prems(1) by (cases arrivals) (simp_all add: now_def)
  have later: "\<forall>actions\<in>set (tl arrivals). \<forall>a\<in>set actions. \<not> isHandle a"
    using Cons.prems(1) by (cases arrivals) simp_all
  have hs: "handlers s2 = handlers s"
    by (simp add: s2_def meanwhile_frame handleOne_frame)
  have "debugLog s2 = debugLog s @ [m]"
    using Cons.prems(2) quiet by (simp add: s2_def meanwhile_debugLog handleOne_debugLog)
  moreover have "debugLog (served (tl arrivals) t batch s2) = debugLog s2 @ batch"
    using Cons.prems(2) later by (intro Cons.IH) (simp_all add: hs)
  ultimately show ?case
    by (simp add: s2_def now_def)
qed

text \<open>
  When no other drain handles a mapping meanwhile, the stores after the batch has been
  served are those that the handlers of its items, called one after the other, leave.
\<close>

lemma served_backing:
  "\<forall>actions\<in>set arrivals. \<forall>a\<in>set actions. \<not> isHandle a \<Longrightarrow>
   backing (served arrivals t batch s) =
     foldl (\<lambda>w m. case handlers s (type m) of None \<Rightarrow> w | Some h \<Rightarrow> snd (h m t w))
       (backing s) batch"
proof (induction batch arbitrary: arrivals s)
  case Nil
  then show ?case by simp
next
  case (Cons m batch)
  define now where "now = (case arrivals of [] \<Rightarrow> [] | actions # _ \<Rightarrow> actions)"
  define s2 where "s2 = meanwhile t now (handleOne t m s)"
  have quiet: "\<forall>a\<in>set now. \<not> isHandle a"
    using Cons.prems by (cases arrivals) (simp_all add: now_def)
  have later: "\<forall>actions\<in>set (tl arrivals). \<forall>a\<in>set actions. \<not> isHandle a"
    using Cons.prems by (cases arrivals) simp_all
  have hs: "handlers s2 = handlers s"
    by (simp add: s2_def meanwhile_frame handleOne_frame)
  have b: "backing s2 =
      (case handlers s (type m) of None \<Rightarrow> backing s | Some h \<Rightarrow> snd (h m t (backing s)))"
    using quiet by (simp add: s2_def meanwhile_backing handleOne_backing)
  from Cons.IH[OF later, of s2] show ?case
    by (simp add: s2_def[symmetric] now_def[symmetric] hs b)
qed

text \<open>
  The loop serves a prefix of the batch, each item of which had a handler; it serves all
  of it when it fulfils.
\<close>

lemma dispatch_served:
  "\<exists>k\<le>length batch.
     snd (dispatch arrivals t batch s) = served arrivals t (take k batch) s \<and>
     (\<forall>m\<in>set (take k batch). handlers s (type m) \<noteq> None) \<and>
     (fst (dispatch arrivals t batch s) = None \<longrightarrow> k = length batch)"
proof (induction batch arbitrary: arrivals s)
  case Nil
  then show ?case by simp
next
  case (Cons m batch)
  show ?case
  proof (cases "handlers s (type m)")
    case None
    then show ?thesis
      by (intro exI[of _ 0]) simp
  next
    case (Some h)
    obtain failure w where hw: "h m t (backing s) = (failure, w)"
      by (cases "h m t (backing s)")
    define now where "now = (case arrivals of [] \<Rightarrow> [] | actions # _ \<Rightarrow> actions)"
    define s2 where "s2 = meanwhile t now (s\<lparr>debugLog := debugLog s @ [m], backing := w\<rparr>)"
    have one: "s2 = meanwhile t now (handleOne t m s)"
      using Some hw by (simp add: s2_def handleOne_def)
    have hs: "handlers s2 = handlers s"
      by (simp add: s2_def meanwhile_frame)
    show ?thesis
    proof (cases failure)
      case None
      have step: "dispatch arrivals t (m # batch) s = dispatch (tl arrivals) t batch s2"
        using Some hw None by (simp add: s2_def now_def)
      from Cons.IH[of "tl arrivals" s2] show ?thesis
      proof (elim exE conjE)
        fix k
        assume k: "k \<le> length batch"
          "snd (dispatch (tl arrivals) t batch s2) = served (tl arrivals) t (take k batch) s2"
          "\<forall>m\<in>set (take k batch). handlers s2 (type m) \<noteq> None"
          "fst (dispatch (tl arrivals) t batch s2) = None \<longrightarrow> k = length batch"
        then show ?thesis
          using Some
          by (intro exI[of _ "Suc k"])
             (simp add: step hs one[symmetric] now_def[symmetric] del: dispatch.simps)
      qed
    next
      case (Some e)
      have step: "dispatch arrivals t (m # batch) s = (Some e, s2)"
        using \<open>handlers s (type m) = Some h\<close> hw Some by (simp add: s2_def now_def)
      show ?thesis
        using \<open>handlers s (type m) = Some h\<close>
        by (intro exI[of _ "Suc 0"])
           (simp add: step one[symmetric] now_def[symmetric] del: dispatch.simps)
    qed
  qed
qed

text \<open>The drain that nothing interrupts.\<close>

lemma dispatch_trace:
  "\<exists>k\<le>length batch.
     debugLog (snd (dispatch [] t batch s)) = debugLog s @ take k batch \<and>
     updateQueue (snd (dispatch [] t batch s)) = updateQueue s \<and>
     owned (snd (dispatch [] t batch s)) = owned s \<and>
     (fst (dispatch [] t batch s) = None \<longrightarrow> k = length batch)"
proof -
  from dispatch_served[of batch "[]" t s] show ?thesis
  proof (elim exE conjE)
    fix k
    assume k: "k \<le> length batch"
      "snd (dispatch [] t batch s) = served [] t (take k batch) s"
      "\<forall>m\<in>set (take k batch). handlers s (type m) \<noteq> None"
      "fst (dispatch [] t batch s) = None \<longrightarrow> k = length batch"
    have "debugLog (served [] t (take k batch) s) = debugLog s @ take k batch"
      using k(3) by (intro served_debugLog) simp_all
    moreover have "updateQueue (served [] t (take k batch) s) = updateQueue s"
      "owned (served [] t (take k batch) s) = owned s"
      using served_queue_owned[of "[]" t "take k batch" s] by (simp_all add: meanwhile_Nil)
    ultimately show ?thesis
      using k(1,2,4) by (intro exI[of _ k]) simp
  qed
qed

lemma dispatch_fulfils:
  "\<forall>m\<in>set batch. \<exists>h. handlers s (type m) = Some h \<and> (\<forall>w. fst (h m t w) = None)
   \<Longrightarrow> fst (dispatch arrivals t batch s) = None"
proof (induction batch arbitrary: arrivals s)
  case Nil
  then show ?case by simp
next
  case (Cons m batch)
  then obtain h where h: "handlers s (type m) = Some h" "\<And>w. fst (h m t w) = None"
    by auto
  obtain failure w where hw: "h m t (backing s) = (failure, w)"
    by (cases "h m t (backing s)")
  with h(2)[of "backing s"] have ok: "failure = None" by simp
  define s2 where "s2 = meanwhile t (case arrivals of [] \<Rightarrow> [] | actions # _ \<Rightarrow> actions)
     (s\<lparr>debugLog := debugLog s @ [m], backing := w\<rparr>)"
  have hs: "handlers s2 = handlers s"
    by (simp add: s2_def meanwhile_frame)
  have "fst (dispatch (tl arrivals) t batch s2) = None"
    using Cons.prems by (intro Cons.IH) (simp add: hs)
  then show ?case
    using h(1) hw ok by (simp add: s2_def)
qed

lemma dispatch_frame:
  "handlers (snd (dispatch arrivals t batch s)) = handlers s"
  "schemas (snd (dispatch arrivals t batch s)) = schemas s"
  "timer (snd (dispatch arrivals t batch s)) = timer s"
  by (induction arrivals t batch s rule: dispatch.induct;
      simp add: meanwhile_frame Let_def split: option.splits prod.splits)+

lemma dispatch_no_arrivals_append:
  "dispatch [] t (pre @ rest) s =
     (if fst (dispatch [] t pre s) = None then dispatch [] t rest (snd (dispatch [] t pre s))
      else dispatch [] t pre s)"
  by (induction pre arbitrary: s)
     (simp_all add: meanwhile_Nil Let_def split: option.splits prod.splits)

lemma processUpdatesDuring_owned:
  "owned (snd (processUpdatesDuring [] s)) = owned s"
proof -
  have "owned (snd (dispatch [] t batch s')) = owned s'" for t batch and s' :: "'a schema_service"
    using dispatch_trace[of batch t s'] by auto
  then show ?thesis
    by (simp add: processUpdatesDuring_def)
qed


text \<open>
  A registration with flush, in the three actions: the registration, the splice of the
  drain it starts, and the passes of that drain over the \<open>k\<close> items it serves (all of its
  batch when the handlers fulfil). A mapping that is not accepted starts no drain.
\<close>

lemma registerMapping_flush_actions:
  assumes "schemas s = Some t"
  shows "\<exists>k\<le>length (updateQueue s @ [m]).
     registerMapping m True s =
       (if owner m = ownerOf (claimOwnership m s) (uri m)
        then meanwhile t (Register m # Splice # map Handle (take k (updateQueue s @ [m]))) s
        else meanwhile t [Register m] s) \<and>
     ((\<forall>x\<in>set (updateQueue s @ [m]). \<exists>h. handlers s (type x) = Some h \<and> (\<forall>w. fst (h x t w) = None))
        \<longrightarrow> k = length (updateQueue s @ [m]))"
proof (cases "owner m = ownerOf (claimOwnership m s) (uri m)")
  case False
  then have "registerMapping m True s = meanwhile t [Register m] s"
    by (simp add: registerMapping_def registerQueued_def meanwhile_def Let_def)
  with False show ?thesis
    by (intro exI[of _ "length (updateQueue s @ [m])"]) simp
next
  case True
  define c where "c = claimOwnership m s"
  define b where "b = updateQueue s @ [m]"
  define s0 where "s0 = (pushUpdate m c)\<lparr>updateQueue := []\<rparr>"
  have q: "updateQueue (pushUpdate m c) = b" "schemas (pushUpdate m c) = Some t"
    using assms(1) by (simp_all add: pushUpdate_def c_def b_def claimOwnership_frame)
  have hs: "handlers s0 = handlers s"
    by (simp add: s0_def pushUpdate_def c_def claimOwnership_frame)
  have ok: "fst (dispatch [] t b s0) = None"
    if "\<forall>x\<in>set b. \<exists>h. handlers s (type x) = Some h \<and> (\<forall>w. fst (h x t w) = None)"
    using that by (intro dispatch_fulfils) (simp add: hs)
  have left: "registerMapping m True s = snd (dispatch [] t b s0)"
    using True q
    by (simp add: registerMapping_def Let_def c_def[symmetric] processUpdates_def
        processUpdatesDuring_def s0_def[symmetric] b_def del: dispatch.simps)
  have right: "meanwhile t (Register m # Splice # map Handle xs) s =
      foldl (\<lambda>s' x. handleOne t x s') s0 xs" for xs
    using True
    by (simp add: meanwhile_def registerQueued_def Let_def c_def[symmetric] s0_def foldl_map)
  from dispatch_served[of b "[]" t s0] show ?thesis
  proof (elim exE conjE)
    fix k
    assume k: "k \<le> length b" "snd (dispatch [] t b s0) = served [] t (take k b) s0"
      "fst (dispatch [] t b s0) = None \<longrightarrow> k = length b"
    show ?thesis
      unfolding b_def[symmetric]
      using True k ok by (intro exI[of _ k]) (simp add: left right served_alone)
  qed
qed

lemma registerMapping_owned:
  "owned (registerMapping m flush s) = owned (claimOwnership m s)"
  by (simp add: registerMapping_def Let_def pushUpdate_def processUpdates_def
      processUpdatesDuring_owned)

lemma claimOwnership_inv: "ownedInv s \<Longrightarrow> ownedInv (claimOwnership m s)"
  by (auto simp: ownedInv_def claimOwnership_def isOwnerUndefined_def isSchemaChanged_def
      split: option.splits if_splits)

lemma registerMapping_inv: "ownedInv s \<Longrightarrow> ownedInv (registerMapping m flush s)"
  using claimOwnership_inv[of s m] by (simp add: ownedInv_def registerMapping_owned)

lemma registerCalls_inv:
  "ownedInv s \<Longrightarrow> ownedInv (foldl (\<lambda>s' (m, flush). registerMapping m flush s') s calls)"
  by (induction calls arbitrary: s) (auto simp: registerMapping_inv)

lemma processUpdates_timer: "timer (snd (processUpdates s)) = timer s"
  by (simp add: processUpdates_def processUpdatesDuring_def dispatch_frame)

lemma timerFires_rearms_iff:
  assumes "timer s = Some True"
  shows "timer (snd (timerFires s)) = Some True \<longleftrightarrow> fst (timerFires s) = None"
proof -
  obtain r s' where run: "processUpdates (s\<lparr>timer := Some False\<rparr>) = (r, s')"
    by (cases "processUpdates (s\<lparr>timer := Some False\<rparr>)")
  have "timer s' = Some False"
    using processUpdates_timer[of "s\<lparr>timer := Some False\<rparr>"] by (simp add: run)
  then show ?thesis
    using assms by (cases r) (simp_all add: timerFires_def timerCallback_def run)
qed

section \<open>Lemmas about the JSON handler\<close>



lemma clean_idem: "cleaned h \<Longrightarrow> clean (h\<lparr>json_schemas := settings\<rparr>) = h\<lparr>json_schemas := settings\<rparr>"
  by (simp add: clean_def)
















section \<open>The download\<close>

lemma fetchAndStore_fails_iff:
  "fst (fetchAndStore env params w) \<noteq> None \<longleftrightarrow> fetchFails env params"
  by (simp add: fetchAndStore_def fetchFails_def Let_def split: sum.splits option.splits)

lemma fetchAndStore_failure_keeps:
  "fst (fetchAndStore env params w) \<noteq> None \<Longrightarrow>
     files (snd (fetchAndStore env params w)) = files w \<and>
     globalState (snd (fetchAndStore env params w)) = globalState w \<and>
     warnings (snd (fetchAndStore env params w)) = warnings w"
  by (auto simp: fetchAndStore_def Let_def split: sum.splits option.splits if_splits)

lemma goformationSchemas_no_buildspec:
  "fst (goformationSchemas env g tag w) ''buildspec'' = None"
  by (simp add: goformationSchemas_def Let_def split: prod.splits option.splits)

section \<open>Evaluation of the concrete inputs\<close>

lemmas service_defs = SchemaService_def registerMapping_def registerQueued_def registerAll_def
  claimOwnership_def isOwnerUndefined_def isSchemaChanged_def ownerOf_def pushUpdate_def
  processUpdates_def processUpdatesDuring_def meanwhile_def handleOne_def
  DEFAULT_UPDATE_PERIOD_MILLIS_def Let_def

lemmas example_defs = exampleService_def untabledService_def jsonOnlyService_def
  mappingA_def mappingA2_def mappingB_def mappingB'_def removalA_def yamlMapping_def doc1_def
  doc2_def
  exampleSchemas_def cfnLocation_def countingHandler_def jsonOnly_def bothTypes_def

lemmas json_defs = handleUpdate_def clean_def cleanResourceMappings_def filterJsonSettings_def
  getSettingBy_def getJsonSettings_def settingMatches_def truthy_def normalizeVSCodeUri_def
  endsWith_def

lemmas download_defs = getDefaultSchemas_def goformationSchemas_def buildspecSchemas_def
  buildspecAttempt_def updateSchemaFromRemote_def fetchAndStore_def truthy_def interpolate_def
  cfnSchemaUri_def samSchemaUri_def buildSpecSchemaUri_def schemaPrefix_def
  goformationManifestURL_def buildspecCloudfrontURL_def buildspecS3FallbackURL_def
  buildspecHostedFilesPath_def exampleEnv_def storageUri_def buildspecParams_def
  freshWorld_def cachedWorld_def fetchFails_def Let_def

text \<open>
  The fan-in scenario of the spec: two documents of one owner name the same schema. Over
  live objects the one entry lists both paths; over copies the second path is lost.
\<close>

lemma fan_in_scenario:
  "json_schemas (backing (registerMapping mappingA2 True (registerMapping mappingA True jsonService))) =
     [\<lparr>fileMatch = Some [''/ws/doc1'', ''/ws/doc2''],
       url = Some ''file:///gs/cloudformation.schema.json'', schema_inline = None\<rparr>]"
  "json_schemas (backing (registerMapping mappingA2 True (registerMapping mappingA True copyingService))) =
     [\<lparr>fileMatch = Some [''/ws/doc1''],
       url = Some ''file:///gs/cloudformation.schema.json'', schema_inline = None\<rparr>]"
  by (simp_all add: jsonService_def copyingService_def service_defs example_defs json_defs)

section \<open>The claims\<close>

subsection \<open>C1\<close>

text \<open>
  Claim C1, as amended. Let the URI of a mapping be in the ownership table with recorded
  owner \<open>a\<close>, and let the mapping's owner differ from \<open>a\<close>. The rule
  \<^verbatim>\<open>isOwnerUndefined\<close> never applies (the URI is present). \<^verbatim>\<open>registerMapping\<close> accepts
  the mapping exactly when \<^verbatim>\<open>isSchemaChanged\<close> holds, that is when the mapping has an
  owner and its schema differs from the recorded one: the mapping then becomes the
  recorded claim and is pushed onto the queue (and drained at once under flush).
  Otherwise the call changes nothing: the mapping is silently ignored.
\<close>

theorem registerMapping_other_owner:
  assumes "owned s (uri m) = Some rec" and "owner rec = Some a" and "owner m \<noteq> Some a"
  shows "\<not> isOwnerUndefined s m \<and>
         (isSchemaChanged s m \<longleftrightarrow> owner m \<noteq> None \<and> schema rec \<noteq> schema m) \<and>
         registerMapping m flush s =
           (if isSchemaChanged s m
            then (let s2 = s\<lparr>owned := (owned s)(uri m \<mapsto> m),
                              updateQueue := updateQueue s @ [m]\<rparr>
                  in if flush then snd (processUpdates s2) else s2)
            else s)"
  using assms
  by (simp add: isOwnerUndefined_def isSchemaChanged_def registerMapping_def claimOwnership_def
      ownerOf_def pushUpdate_def Let_def)

text \<open>
  The claim as first stated fails: \<open>featureB\<close> takes over a document claimed by
  \<open>featureA\<close> by naming another schema, and its mapping is queued, although
  \<^verbatim>\<open>isOwnerUndefined\<close> is false.
\<close>

theorem registerMapping_other_owner_counterexample:
  "owned (registerMapping mappingA False exampleService) doc1 = Some mappingA \<and>
   owner mappingB \<noteq> owner mappingA \<and>
   \<not> isOwnerUndefined (registerMapping mappingA False exampleService) mappingB \<and>
   updateQueue (registerMapping mappingB False (registerMapping mappingA False exampleService))
     = [mappingA, mappingB] \<and>
   owned (registerMapping mappingB False (registerMapping mappingA False exampleService)) doc1
     = Some mappingB"
  by (simp add: service_defs example_defs)

text \<open>With the same schema as the recorded one, the other owner's mapping is ignored.\<close>

theorem registerMapping_other_owner_witness:
  "owned (registerMapping mappingA False exampleService) (uri mappingB') = Some mappingA \<and>
   owner mappingA = Some ''featureA'' \<and> owner mappingB' \<noteq> Some ''featureA'' \<and>
   \<not> isSchemaChanged (registerMapping mappingA False exampleService) mappingB' \<and>
   registerMapping mappingB' True (registerMapping mappingA False exampleService)
     = registerMapping mappingA False exampleService"
proof -
  have h1: "owned (registerMapping mappingA False exampleService) (uri mappingB') = Some mappingA"
    by (simp add: service_defs example_defs)
  have h2: "owner mappingA = Some ''featureA''"
    by (simp add: mappingA_def)
  have h3: "owner mappingB' \<noteq> Some ''featureA''"
    by (simp add: mappingB'_def)
  have same: "schema mappingA = schema mappingB'"
    by (simp add: mappingA_def mappingB'_def)
  from registerMapping_other_owner[OF h1 h2 h3, of True] h1 h2 h3 same show ?thesis
    by simp
qed

subsection \<open>C2\<close>

text \<open>
  Claim C2, as amended. While the resolved schema table is unset, \<^verbatim>\<open>processUpdates\<close> is
  a no-op: it fulfils and leaves the whole state, the queue included, as it was. The
  queued mappings are not discarded: once the table is set, the next call dispatches
  them all, in their order, and empties the queue (here for handlers that are registered
  and fulfil).
\<close>

theorem processUpdates_without_table:
  assumes "schemas s = None"
  shows "processUpdates s = (None, s) \<and>
         (updateQueue s \<noteq> [] \<longrightarrow>
          (\<forall>m\<in>set (updateQueue s). \<exists>h. handlers s (type m) = Some h \<and> (\<forall>w. fst (h m t w) = None)) \<longrightarrow>
          fst (processUpdates ((snd (processUpdates s))\<lparr>schemas := Some t\<rparr>)) = None \<and>
          debugLog (snd (processUpdates ((snd (processUpdates s))\<lparr>schemas := Some t\<rparr>))) =
            debugLog s @ updateQueue s \<and>
          updateQueue (snd (processUpdates ((snd (processUpdates s))\<lparr>schemas := Some t\<rparr>))) = [])"
proof -
  have noop: "processUpdates s = (None, s)"
    using assms by (simp add: processUpdates_def processUpdatesDuring_def)
  {
    assume q: "updateQueue s \<noteq> []"
      and hs: "\<forall>m\<in>set (updateQueue s). \<exists>h. handlers s (type m) = Some h \<and> (\<forall>w. fst (h m t w) = None)"
    define s0 where "s0 = s\<lparr>schemas := Some t, updateQueue := []\<rparr>"
    have run: "processUpdates (s\<lparr>schemas := Some t\<rparr>) = dispatch [] t (updateQueue s) s0"
      using q by (simp add: processUpdates_def processUpdatesDuring_def s0_def)
    have ok: "fst (dispatch [] t (updateQueue s) s0) = None"
      using hs by (intro dispatch_fulfils) (simp add: s0_def)
    from dispatch_trace[of "updateQueue s" t s0] ok
    have "debugLog (snd (dispatch [] t (updateQueue s) s0)) = debugLog s @ updateQueue s"
      "updateQueue (snd (dispatch [] t (updateQueue s) s0)) = []"
      by (auto simp: meanwhile_Nil s0_def)
    with ok have "fst (processUpdates ((snd (processUpdates s))\<lparr>schemas := Some t\<rparr>)) = None \<and>
          debugLog (snd (processUpdates ((snd (processUpdates s))\<lparr>schemas := Some t\<rparr>))) =
            debugLog s @ updateQueue s \<and>
          updateQueue (snd (processUpdates ((snd (processUpdates s))\<lparr>schemas := Some t\<rparr>))) = []"
      by (simp add: noop run)
  }
  with noop show ?thesis by blast
qed

text \<open>
  The claim as first stated fails: a mapping queued before the table exists is still
  queued after \<^verbatim>\<open>processUpdates\<close>, and is dispatched on the next call once the table is
  there.
\<close>

theorem processUpdates_without_table_counterexample:
  "schemas (registerMapping yamlMapping False untabledService) = None \<and>
   updateQueue (registerMapping yamlMapping False untabledService) = [yamlMapping] \<and>
   updateQueue (snd (processUpdates (registerMapping yamlMapping False untabledService)))
     = [yamlMapping] \<and>
   debugLog (snd (processUpdates
      ((snd (processUpdates (registerMapping yamlMapping False untabledService)))
         \<lparr>schemas := Some exampleSchemas\<rparr>))) = [yamlMapping]"
  by (simp add: service_defs example_defs)

text \<open>Two mappings queued before the table exists are both dispatched after it is set.\<close>

theorem processUpdates_without_table_witness:
  "schemas (registerAll [mappingA, yamlMapping] untabledService) = None \<and>
   processUpdates (registerAll [mappingA, yamlMapping] untabledService)
     = (None, registerAll [mappingA, yamlMapping] untabledService) \<and>
   debugLog (snd (processUpdates
      ((snd (processUpdates (registerAll [mappingA, yamlMapping] untabledService)))
         \<lparr>schemas := Some exampleSchemas\<rparr>))) = [mappingA, yamlMapping]"
proof -
  define s where "s = registerAll [mappingA, yamlMapping] untabledService"
  have h: "schemas s = None"
    by (simp add: s_def service_defs example_defs)
  have q: "updateQueue s = [mappingA, yamlMapping]"
    by (simp add: s_def service_defs example_defs)
  have hs: "\<forall>m\<in>set (updateQueue s). \<exists>h. handlers s (type m) = Some h \<and>
      (\<forall>w. fst (h m exampleSchemas w) = None)"
    unfolding q by (simp add: s_def service_defs example_defs)
  have l: "debugLog s = []"
    by (simp add: s_def service_defs example_defs)
  have qne: "updateQueue s \<noteq> []"
    by (simp add: q)
  note t = processUpdates_without_table[OF h, of exampleSchemas]
  note noop = t[THEN conjunct1]
  note retry = t[THEN conjunct2, rule_format, OF qne hs[rule_format], THEN conjunct2, THEN conjunct1]
  from h noop retry show ?thesis
    unfolding s_def[symmetric] by (simp only: q l append_Nil simp_thms)
qed

subsection \<open>C3\<close>




subsection \<open>C4\<close>

text \<open>
  Claim C4. With a non-empty queue and the table present, \<^verbatim>\<open>processUpdates\<close> takes the
  whole queue as one batch. It serves the first \<open>k\<close> items of the batch, one after the
  other in insertion order: for each the handler of its type is invoked (each of the
  \<open>k\<close> has one), and what other code does during the await of that call comes after it.
  \<open>k\<close> is the length of the batch when the drain fulfils, which it does when every
  mapping of the batch has a handler that fulfils. The queue it leaves is the one that
  the other code alone leaves, as on an emptied queue: no item of the batch returns to
  it, and nothing that is enqueued during the drain is taken by this drain (it stays
  queued, or is spliced off by the drain that a flush or the timer starts). When no
  other drain handles a mapping meanwhile, the debug log grows by exactly the \<open>k\<close>
  items, in their order, and the stores are those that the handlers of the \<open>k\<close> items,
  called one after the other in that order, leave.
\<close>

theorem processUpdates_batch:
  assumes "updateQueue s \<noteq> []" and "schemas s = Some t"
  shows "\<exists>k\<le>length (updateQueue s).
           snd (processUpdatesDuring arrivals s) =
             served arrivals t (take k (updateQueue s)) (s\<lparr>updateQueue := []\<rparr>) \<and>
           (\<forall>m\<in>set (take k (updateQueue s)). handlers s (type m) \<noteq> None) \<and>
           updateQueue (snd (processUpdatesDuring arrivals s)) =
             updateQueue (meanwhile t (concat (take k arrivals)) (s\<lparr>updateQueue := []\<rparr>)) \<and>
           ((\<forall>actions\<in>set arrivals. \<forall>a\<in>set actions. \<not> isHandle a) \<longrightarrow>
              debugLog (snd (processUpdatesDuring arrivals s)) = debugLog s @ take k (updateQueue s) \<and>
              backing (snd (processUpdatesDuring arrivals s)) =
                foldl (\<lambda>w m. case handlers s (type m) of None \<Rightarrow> w | Some h \<Rightarrow> snd (h m t w))
                  (backing s) (take k (updateQueue s))) \<and>
           (fst (processUpdatesDuring arrivals s) = None \<longrightarrow> k = length (updateQueue s)) \<and>
           ((\<forall>m\<in>set (updateQueue s). \<exists>h. handlers s (type m) = Some h \<and> (\<forall>w. fst (h m t w) = None))
              \<longrightarrow> fst (processUpdatesDuring arrivals s) = None)"
proof -
  define s0 where "s0 = s\<lparr>updateQueue := []\<rparr>"
  define batch where "batch = updateQueue s"
  have run: "processUpdatesDuring arrivals s = dispatch arrivals t batch s0"
    using assms by (simp add: processUpdatesDuring_def s0_def batch_def)
  have ok: "fst (dispatch arrivals t batch s0) = None"
    if "\<forall>m\<in>set batch. \<exists>h. handlers s (type m) = Some h \<and> (\<forall>w. fst (h m t w) = None)"
    using that by (intro dispatch_fulfils) (simp add: s0_def)
  from dispatch_served[of batch arrivals t s0] show ?thesis
  proof (elim exE conjE)
    fix k
    assume k: "k \<le> length batch"
      "snd (dispatch arrivals t batch s0) = served arrivals t (take k batch) s0"
      "\<forall>m\<in>set (take k batch). handlers s0 (type m) \<noteq> None"
      "fst (dispatch arrivals t batch s0) = None \<longrightarrow> k = length batch"
    have hs: "\<forall>m\<in>set (take k batch). handlers s (type m) \<noteq> None"
      using k(3) by (simp add: s0_def)
    have q: "updateQueue (served arrivals t (take k batch) s0) =
        updateQueue (meanwhile t (concat (take k arrivals)) s0)"
      using served_queue_owned[of arrivals t "take k batch" s0] k(1) by (simp add: min_absorb2)
    have l: "debugLog (served arrivals t (take k batch) s0) = debugLog s @ take k batch"
      if "\<forall>actions\<in>set arrivals. \<forall>a\<in>set actions. \<not> isHandle a"
      using served_debugLog[OF that k(3), of t] by (simp add: s0_def)
    have w: "backing (served arrivals t (take k batch) s0) =
        foldl (\<lambda>w m. case handlers s (type m) of None \<Rightarrow> w | Some h \<Rightarrow> snd (h m t w))
          (backing s) (take k batch)"
      if "\<forall>actions\<in>set arrivals. \<forall>a\<in>set actions. \<not> isHandle a"
      using served_backing[OF that, of t "take k batch" s0] by (simp add: s0_def)
    show ?thesis
      unfolding run batch_def[symmetric] s0_def[symmetric]
      using k(1,2,4) hs q l w ok by (intro exI[of _ k]) simp
  qed
qed

text \<open>
  A batch of two. A removal registered with flush during the first handler call is
  handled by the drain that its flush starts, between the two items of the batch; one
  registered without flush stays queued. The counting handler has been called for
  every dispatch.
\<close>

theorem processUpdates_batch_witness:
  "updateQueue (registerAll [mappingA, yamlMapping] exampleService) \<noteq> [] \<and>
   schemas (registerAll [mappingA, yamlMapping] exampleService) = Some exampleSchemas \<and>
   debugLog (snd (processUpdatesDuring [[Register removalA, Splice, Handle removalA], []]
      (registerAll [mappingA, yamlMapping] exampleService))) = [mappingA, removalA, yamlMapping] \<and>
   updateQueue (snd (processUpdatesDuring [[Register removalA, Splice, Handle removalA], []]
      (registerAll [mappingA, yamlMapping] exampleService))) = [] \<and>
   backing (snd (processUpdatesDuring [[Register removalA, Splice, Handle removalA], []]
      (registerAll [mappingA, yamlMapping] exampleService))) = 3 \<and>
   debugLog (snd (processUpdatesDuring [[Register removalA], []]
      (registerAll [mappingA, yamlMapping] exampleService))) = [mappingA, yamlMapping] \<and>
   updateQueue (snd (processUpdatesDuring [[Register removalA], []]
      (registerAll [mappingA, yamlMapping] exampleService))) = [removalA] \<and>
   backing (snd (processUpdatesDuring [[Register removalA], []]
      (registerAll [mappingA, yamlMapping] exampleService))) = 2"
proof -
  define s where "s = registerAll [mappingA, yamlMapping] exampleService"
  define flushed where "flushed = [[Register removalA, Splice, Handle removalA], []]"
  define queued where "queued = [[Register removalA], [] :: action list]"
  have q: "updateQueue s = [mappingA, yamlMapping]"
    by (simp add: s_def service_defs example_defs)
  have h1: "updateQueue s \<noteq> []"
    by (simp add: q)
  have h2: "schemas s = Some exampleSchemas"
    by (simp add: s_def service_defs example_defs)
  have hs: "\<forall>m\<in>set (updateQueue s). \<exists>h. handlers s (type m) = Some h \<and>
      (\<forall>w. fst (h m exampleSchemas w) = None)"
    unfolding q by (simp add: s_def service_defs example_defs)
  have f: "debugLog (served flushed exampleSchemas (take 2 [mappingA, yamlMapping])
              (s\<lparr>updateQueue := []\<rparr>)) = [mappingA, removalA, yamlMapping]"
    "updateQueue (served flushed exampleSchemas (take 2 [mappingA, yamlMapping])
              (s\<lparr>updateQueue := []\<rparr>)) = []"
    "backing (served flushed exampleSchemas (take 2 [mappingA, yamlMapping])
              (s\<lparr>updateQueue := []\<rparr>)) = 3"
    by (simp_all add: flushed_def s_def service_defs example_defs)
  have g: "debugLog (served queued exampleSchemas (take 2 [mappingA, yamlMapping])
              (s\<lparr>updateQueue := []\<rparr>)) = [mappingA, yamlMapping]"
    "updateQueue (served queued exampleSchemas (take 2 [mappingA, yamlMapping])
              (s\<lparr>updateQueue := []\<rparr>)) = [removalA]"
    "backing (served queued exampleSchemas (take 2 [mappingA, yamlMapping])
              (s\<lparr>updateQueue := []\<rparr>)) = 2"
    by (simp_all add: queued_def s_def service_defs example_defs)
  from processUpdates_batch[OF h1 h2, of flushed] hs
  obtain k where "snd (processUpdatesDuring flushed s) =
        served flushed exampleSchemas (take k (updateQueue s)) (s\<lparr>updateQueue := []\<rparr>)"
      "k = length (updateQueue s)"
    by (elim exE conjE) simp
  then have a: "snd (processUpdatesDuring flushed s) =
        served flushed exampleSchemas (take 2 [mappingA, yamlMapping]) (s\<lparr>updateQueue := []\<rparr>)"
    by (simp add: q)
  from processUpdates_batch[OF h1 h2, of queued] hs
  obtain k' where "snd (processUpdatesDuring queued s) =
        served queued exampleSchemas (take k' (updateQueue s)) (s\<lparr>updateQueue := []\<rparr>)"
      "k' = length (updateQueue s)"
    by (elim exE conjE) simp
  then have b: "snd (processUpdatesDuring queued s) =
        served queued exampleSchemas (take 2 [mappingA, yamlMapping]) (s\<lparr>updateQueue := []\<rparr>)"
    by (simp add: q)
  from h1 h2 f g show ?thesis
    unfolding s_def[symmetric] flushed_def[symmetric] queued_def[symmetric] a b
    by (intro conjI)
qed

subsection \<open>C5\<close>

text \<open>
  Claim C5. When no version is supplied or the supplied version equals the cached version
  key, and the cached file has content, \<^verbatim>\<open>updateSchemaFromRemote\<close> fulfils and changes
  nothing: no request, no write, no change of the version cache. A second call is the
  same no-op, so the list of requests is still the one before the first call.
\<close>

theorem updateSchemaFromRemote_cache_hit:
  assumes "version params = None \<or> version params = globalState w (cacheKey params)"
    and "truthy (files w (fsPath (destination params)))"
  shows "updateSchemaFromRemote env params w = (None, w) \<and>
         updateSchemaFromRemote env params (snd (updateSchemaFromRemote env params w)) = (None, w) \<and>
         requests (snd (updateSchemaFromRemote env params
                          (snd (updateSchemaFromRemote env params w)))) = requests w"
proof -
  have "\<not> (truthy (version params) \<and> version params \<noteq> globalState w (cacheKey params))"
    using assms(1) by (auto simp: truthy_def)
  then have "updateSchemaFromRemote env params w = (None, w)"
    using assms(2) by (simp add: updateSchemaFromRemote_def Let_def)
  then show ?thesis by simp
qed

text \<open>A cached buildspec schema of the supplied version.\<close>

theorem updateSchemaFromRemote_cache_hit_witness:
  "(version (buildspecParams (Some ''h'')) = None \<or>
    version (buildspecParams (Some ''h'')) =
      globalState cachedWorld (cacheKey (buildspecParams (Some ''h'')))) \<and>
   truthy (files cachedWorld (fsPath (destination (buildspecParams (Some ''h''))))) \<and>
   updateSchemaFromRemote exampleEnv (buildspecParams (Some ''h'')) cachedWorld = (None, cachedWorld) \<and>
   requests (snd (updateSchemaFromRemote exampleEnv (buildspecParams (Some ''h''))
      (snd (updateSchemaFromRemote exampleEnv (buildspecParams (Some ''h'')) cachedWorld)))) = []"
proof -
  have h1: "version (buildspecParams (Some ''h'')) = None \<or>
    version (buildspecParams (Some ''h'')) =
      globalState cachedWorld (cacheKey (buildspecParams (Some ''h'')))"
    by (simp add: buildspecParams_def cachedWorld_def)
  have h2: "truthy (files cachedWorld (fsPath (destination (buildspecParams (Some ''h'')))))"
    by (simp add: buildspecParams_def cachedWorld_def truthy_def buildSpecSchemaUri_def
        exampleEnv_def storageUri_def)
  have r: "requests cachedWorld = []"
    by (simp add: cachedWorld_def)
  note t = updateSchemaFromRemote_cache_hit[OF h1 h2, of exampleEnv]
  from h1 h2 t[THEN conjunct1] t[THEN conjunct2, THEN conjunct2] show ?thesis
    by (simp only: r simp_thms)
qed

subsection \<open>C6\<close>

text \<open>
  Claim C6. \<^verbatim>\<open>updateSchemaFromRemote\<close> rejects if and only if the fetch (or the parse,
  the directory or the write after it) fails and there was no cached content; the error
  is then the one of the failed step. When there was cached content and the fetch fails,
  the call fulfils and the files and the version cache are as before.
\<close>

theorem updateSchemaFromRemote_raises_iff:
  "(fst (updateSchemaFromRemote env params w) \<noteq> None \<longleftrightarrow>
      fetchFails env params \<and> \<not> truthy (files w (fsPath (destination params)))) \<and>
   (fst (updateSchemaFromRemote env params w) \<noteq> None \<longrightarrow>
      fst (updateSchemaFromRemote env params w) = fst (fetchAndStore env params w)) \<and>
   (truthy (files w (fsPath (destination params))) \<and> fetchFails env params \<longrightarrow>
      fst (updateSchemaFromRemote env params w) = None \<and>
      files (snd (updateSchemaFromRemote env params w)) = files w \<and>
      globalState (snd (updateSchemaFromRemote env params w)) = globalState w)"
proof -
  obtain r w' where run: "fetchAndStore env params w = (r, w')"
    by (cases "fetchAndStore env params w")
  have fails: "r \<noteq> None \<longleftrightarrow> fetchFails env params"
    using fetchAndStore_fails_iff[of env params w] by (simp add: run)
  have keeps: "r \<noteq> None \<Longrightarrow> files w' = files w \<and> globalState w' = globalState w"
    using fetchAndStore_failure_keeps[of env params w] by (simp add: run)
  show ?thesis
  proof (cases "truthy (files w (fsPath (destination params)))")
    case False
    then have "updateSchemaFromRemote env params w = (r, w')"
      by (cases r) (simp_all add: updateSchemaFromRemote_def Let_def run)
    with False fails show ?thesis by (simp add: run)
  next
    case True
    show ?thesis
    proof (cases "truthy (version params) \<and> version params \<noteq> globalState w (cacheKey params)")
      case False
      with True have "updateSchemaFromRemote env params w = (None, w)"
        by (simp add: updateSchemaFromRemote_def Let_def)
      with True show ?thesis by simp
    next
      case outdated: True
      show ?thesis
      proof (cases r)
        case None
        with True outdated have "updateSchemaFromRemote env params w = (None, w')"
          by (simp add: updateSchemaFromRemote_def Let_def run)
        with True None fails show ?thesis by simp
      next
        case (Some err)
        with True outdated have "updateSchemaFromRemote env params w =
            (None, w'\<lparr>warnings := warnings w' @ [err]\<rparr>)"
          by (simp add: updateSchemaFromRemote_def Let_def run)
        with True Some keeps show ?thesis by simp
      qed
    qed
  qed
qed

text \<open>
  The CloudFront copy cannot be fetched: without a cached file the call rejects, with one
  it fulfils and keeps the file.
\<close>

theorem updateSchemaFromRemote_raises_iff_witness:
  "fetchFails exampleEnv (buildspecParams (Some ''h2'')) \<and>
   \<not> truthy (files freshWorld (fsPath (destination (buildspecParams (Some ''h2''))))) \<and>
   fst (updateSchemaFromRemote exampleEnv (buildspecParams (Some ''h2'')) freshWorld) \<noteq> None \<and>
   truthy (files cachedWorld (fsPath (destination (buildspecParams (Some ''h2''))))) \<and>
   fst (updateSchemaFromRemote exampleEnv (buildspecParams (Some ''h2'')) cachedWorld) = None \<and>
   files (snd (updateSchemaFromRemote exampleEnv (buildspecParams (Some ''h2'')) cachedWorld))
     = files cachedWorld"
proof -
  have f: "fetchFails exampleEnv (buildspecParams (Some ''h2''))"
    by (simp add: download_defs)
  have n: "\<not> truthy (files freshWorld (fsPath (destination (buildspecParams (Some ''h2'')))))"
    by (simp add: download_defs)
  have c: "truthy (files cachedWorld (fsPath (destination (buildspecParams (Some ''h2'')))))"
    by (simp add: download_defs)
  note raised = updateSchemaFromRemote_raises_iff[of exampleEnv "buildspecParams (Some ''h2'')" freshWorld,
      THEN conjunct1, THEN iffD2, OF conjI[OF f n]]
  note kept = updateSchemaFromRemote_raises_iff[of exampleEnv "buildspecParams (Some ''h2'')" cachedWorld,
      THEN conjunct2, THEN conjunct2, rule_format, OF conjI[OF c f]]
  from f n c raised kept show ?thesis
    by (simp only: simp_thms)
qed

subsection \<open>C7\<close>

text \<open>
  Claim C7. Once the manifest has been read, \<^verbatim>\<open>getDefaultSchemas\<close> fulfils with a
  table. It tries the buildspec schema from CloudFront; if that attempt throws, it runs
  the whole attempt again from S3 on the world the first attempt left. The table has the
  entry \<open>buildspec\<close> exactly when one of the two attempts succeeded.
\<close>

theorem getDefaultSchemas_buildspec_fallback:
  assumes "getPropertyFromJsonUrl env goformationManifestURL ''tag_name'' = Inr tag"
  shows "(let w0 = w\<lparr>requests := requests w @ [goformationManifestURL]\<rparr>;
              (t2, w2) = goformationSchemas env g tag w0;
              (r3, w3) = buildspecAttempt env g buildspecCloudfrontURL w2;
              (r4, w4) = buildspecAttempt env g buildspecS3FallbackURL w3
          in (\<exists>t. fst (getDefaultSchemas env g w) = Inr t \<and>
                   t ''buildspec'' =
                     (if r3 = None \<or> r4 = None then Some (buildSpecSchemaUri env g) else None)) \<and>
             snd (getDefaultSchemas env g w) = (if r3 = None then w3 else w4))"
proof -
  define w0 where "w0 = w\<lparr>requests := requests w @ [goformationManifestURL]\<rparr>"
  obtain t2 w2 where g: "goformationSchemas env g tag w0 = (t2, w2)"
    by (cases "goformationSchemas env g tag w0")
  obtain r3 w3 where p: "buildspecAttempt env g buildspecCloudfrontURL w2 = (r3, w3)"
    by (cases "buildspecAttempt env g buildspecCloudfrontURL w2")
  obtain r4 w4 where f: "buildspecAttempt env g buildspecS3FallbackURL w3 = (r4, w4)"
    by (cases "buildspecAttempt env g buildspecS3FallbackURL w3")
  have none: "t2 ''buildspec'' = None"
    using goformationSchemas_no_buildspec[of env g tag w0] by (simp add: g)
  have "getDefaultSchemas env g w =
      (if r3 = None then (Inr (t2(''buildspec'' \<mapsto> buildSpecSchemaUri env g)), w3)
       else if r4 = None then (Inr (t2(''buildspec'' \<mapsto> buildSpecSchemaUri env g)), w4)
       else (Inr t2, w4))"
    using assms
    by (simp add: getDefaultSchemas_def buildspecSchemas_def Let_def w0_def[symmetric] g p f
        split: option.splits)
  with none show ?thesis
    by (simp add: Let_def w0_def[symmetric] g p f)
qed

text \<open>
  Only the S3 copy can be fetched: the table has the entry. Nothing can be fetched: the
  call still fulfils, and the table has no such entry.
\<close>

theorem getDefaultSchemas_buildspec_fallback_witness:
  "getPropertyFromJsonUrl exampleEnv goformationManifestURL ''tag_name'' = Inr (Some ''v1'') \<and>
   (\<exists>t. fst (getDefaultSchemas exampleEnv storageUri freshWorld) = Inr t \<and>
        t ''buildspec'' = Some (buildSpecSchemaUri exampleEnv storageUri)) \<and>
   getPropertyFromJsonUrl offlineEnv goformationManifestURL ''tag_name'' = Inr (Some ''v1'') \<and>
   (\<exists>t. fst (getDefaultSchemas offlineEnv storageUri cachedWorld) = Inr t \<and>
        t ''buildspec'' = None)"
proof -
  have h: "getPropertyFromJsonUrl exampleEnv goformationManifestURL ''tag_name'' = Inr (Some ''v1'')"
    by (simp add: exampleEnv_def)
  have h': "getPropertyFromJsonUrl offlineEnv goformationManifestURL ''tag_name'' = Inr (Some ''v1'')"
    by (simp add: exampleEnv_def offlineEnv_def)
  from getDefaultSchemas_buildspec_fallback[OF h, of freshWorld storageUri]
  have a: "\<exists>t. fst (getDefaultSchemas exampleEnv storageUri freshWorld) = Inr t \<and>
        t ''buildspec'' = Some (buildSpecSchemaUri exampleEnv storageUri)"
    by (simp add: download_defs)
  from getDefaultSchemas_buildspec_fallback[OF h', of cachedWorld storageUri]
  have b: "\<exists>t. fst (getDefaultSchemas offlineEnv storageUri cachedWorld) = Inr t \<and>
        t ''buildspec'' = None"
    by (simp add: download_defs offlineEnv_def)
  from h a h' b show ?thesis
    by (intro conjI)
qed

subsection \<open>C8\<close>

text \<open>
  Claim C8. When the batch is \<open>pre @ m # post\<close>, the mappings of \<open>pre\<close> have handlers
  that fulfil and the type of \<open>m\<close> has no handler, \<^verbatim>\<open>processUpdates\<close> rejects with the
  error for that type in the state that dispatching \<open>pre\<close> alone leaves: only \<open>pre\<close> was
  dispatched, and the queue is empty, so \<open>m\<close> and \<open>post\<close> are lost.
\<close>

theorem processUpdates_no_handler:
  assumes "schemas s = Some t" and "updateQueue s = pre @ m # post"
    and "handlers s (type m) = None"
    and "\<forall>p\<in>set pre. \<exists>h. handlers s (type p) = Some h \<and> (\<forall>w. fst (h p t w) = None)"
  shows "processUpdates s =
           (Some (NoRegisteredHandler (type m)), snd (dispatch [] t pre (s\<lparr>updateQueue := []\<rparr>))) \<and>
         debugLog (snd (processUpdates s)) = debugLog s @ pre \<and>
         updateQueue (snd (processUpdates s)) = []"
proof -
  define s0 where "s0 = s\<lparr>updateQueue := []\<rparr>"
  define s1 where "s1 = snd (dispatch [] t pre s0)"
  have ok: "fst (dispatch [] t pre s0) = None"
    using assms(4) by (intro dispatch_fulfils) (simp add: s0_def)
  have "handlers s1 (type m) = None"
    using assms(3) by (simp add: s1_def dispatch_frame s0_def)
  then have stop: "dispatch [] t (m # post) s1 = (Some (NoRegisteredHandler (type m)), s1)"
    by simp
  have run: "processUpdates s = (Some (NoRegisteredHandler (type m)), s1)"
    using assms(1,2) ok stop
    by (simp add: processUpdates_def processUpdatesDuring_def dispatch_no_arrivals_append
        s0_def[symmetric] s1_def[symmetric] del: dispatch.simps)
  from dispatch_trace[of pre t s0] ok
  have "debugLog s1 = debugLog s @ pre" "updateQueue s1 = []"
    by (auto simp: meanwhile_Nil s0_def s1_def)
  then show ?thesis
    by (simp add: run s1_def s0_def)
qed

text \<open>A YAML mapping between two JSON mappings, with a JSON handler only.\<close>

theorem processUpdates_no_handler_witness:
  "schemas (registerAll [mappingA, yamlMapping, removalA] jsonOnlyService) = Some exampleSchemas \<and>
   updateQueue (registerAll [mappingA, yamlMapping, removalA] jsonOnlyService)
     = [mappingA] @ yamlMapping # [removalA] \<and>
   handlers (registerAll [mappingA, yamlMapping, removalA] jsonOnlyService) (type yamlMapping) = None \<and>
   fst (processUpdates (registerAll [mappingA, yamlMapping, removalA] jsonOnlyService))
     = Some (NoRegisteredHandler Yaml) \<and>
   debugLog (snd (processUpdates (registerAll [mappingA, yamlMapping, removalA] jsonOnlyService)))
     = [mappingA] \<and>
   updateQueue (snd (processUpdates (registerAll [mappingA, yamlMapping, removalA] jsonOnlyService)))
     = []"
proof -
  define s where "s = registerAll [mappingA, yamlMapping, removalA] jsonOnlyService"
  have h1: "schemas s = Some exampleSchemas"
    by (simp add: s_def service_defs example_defs)
  have h2: "updateQueue s = [mappingA] @ yamlMapping # [removalA]"
    by (simp add: s_def service_defs example_defs)
  have h3: "handlers s (type yamlMapping) = None"
    by (simp add: s_def service_defs example_defs)
  have h4: "\<forall>p\<in>set [mappingA]. \<exists>h. handlers s (type p) = Some h \<and>
      (\<forall>w. fst (h p exampleSchemas w) = None)"
    by (simp add: s_def service_defs example_defs)
  have l: "debugLog s = []" "type yamlMapping = Yaml"
    by (simp_all add: s_def service_defs example_defs)
  note t = processUpdates_no_handler[OF h1 h2 h3 h4]
  have a: "fst (processUpdates s) = Some (NoRegisteredHandler Yaml)"
    using t[THEN conjunct1] by (simp add: l(2) del: dispatch.simps)
  note b = t[THEN conjunct2, THEN conjunct1]
  note c = t[THEN conjunct2, THEN conjunct2]
  from h1 h2 h3 a b c show ?thesis
    unfolding s_def[symmetric] by (simp only: l append_Nil simp_thms)
qed

subsection \<open>C9\<close>

text \<open>
  Claim C9 does not hold of the code. A service with a JSON handler only has a YAML
  mapping queued and its timer started. The firing rejects with the missing handler, the
  callback ends at its \<^verbatim>\<open>await\<close>, and the timeout is not refreshed: the timer stays
  fired, and nothing fires it again.
\<close>

theorem timer_not_refreshed_after_rejection:
  "timer (startTimer (registerMapping yamlMapping False jsonOnlyService)) = Some True \<and>
   fst (timerFires (startTimer (registerMapping yamlMapping False jsonOnlyService)))
     = Some (NoRegisteredHandler Yaml) \<and>
   timer (snd (timerFires (startTimer (registerMapping yamlMapping False jsonOnlyService))))
     = Some False \<and>
   timerFires (snd (timerFires (startTimer (registerMapping yamlMapping False jsonOnlyService))))
     = (None, snd (timerFires (startTimer (registerMapping yamlMapping False jsonOnlyService))))"
  by (simp add: timerFires_def timerCallback_def startTimer_def service_defs example_defs)

subsection \<open>C10\<close>

text \<open>
  Claim C10. After any sequence of \<^verbatim>\<open>registerMapping\<close> calls on a newly constructed
  service, every entry of the ownership table has an owner (and is filed under the URI of
  its mapping).
\<close>

theorem owned_owner_defined:
  assumes "owned (foldl (\<lambda>s' (m, flush). registerMapping m flush s')
                    (SchemaService optSchemas optPeriod optHandlers w) calls) u = Some rec"
  shows "owner rec \<noteq> None \<and> uri rec = u"
proof -
  have "ownedInv (SchemaService optSchemas optPeriod optHandlers w)"
    by (simp add: ownedInv_def SchemaService_def)
  from registerCalls_inv[OF this, of calls] assms show ?thesis
    unfolding ownedInv_def by blast
qed

text \<open>
  A claim followed by a removal from the same owner: the entry has its owner, and no
  schema.
\<close>

theorem owned_owner_defined_witness:
  "owned (foldl (\<lambda>s' (m, flush). registerMapping m flush s')
            (SchemaService (Some exampleSchemas) None bothTypes (0::nat))
            [(mappingA, False), (removalA, True)]) doc1 = Some removalA \<and>
   owner removalA \<noteq> None \<and> uri removalA = doc1 \<and> schema removalA = None"
proof -
  have h: "owned (foldl (\<lambda>s' (m, flush). registerMapping m flush s')
            (SchemaService (Some exampleSchemas) None bothTypes (0::nat))
            [(mappingA, False), (removalA, True)]) doc1 = Some removalA"
    by (simp add: service_defs example_defs)
  from owned_owner_defined[OF h] h show ?thesis
    by (simp add: removalA_def)
qed

end
